theory Spec2Isabelle
  imports Main "HOL-Library.Sublist" "HOL-Library.Word"
begin

unbundle bit_operations_syntax

section \<open>Strings of the C++ standard library\<close>

text \<open>
  A \<^verbatim>\<open>std::string\<close> is a list of bytes. \<^verbatim>\<open>s.find(pat, pos)\<close> returns the least index
  \<open>i \<ge> pos\<close> at which \<open>pat\<close> starts in \<open>s\<close>, or \<^verbatim>\<open>npos\<close> (here \<open>None\<close>).
  \<open>find_first\<close> scans a suffix from its start; \<open>str_find\<close> adds the offset.
\<close>

primrec find_first :: "string \<Rightarrow> string \<Rightarrow> nat option" where
  "find_first pat [] = (if pat = [] then Some 0 else None)"
| "find_first pat (c # cs) =
     (if prefix pat (c # cs) then Some 0 else map_option Suc (find_first pat cs))"

definition str_find :: "string \<Rightarrow> string \<Rightarrow> nat \<Rightarrow> nat option" where
  "str_find s pat pos =
     (if length s < pos then None
      else map_option (\<lambda>i. pos + i) (find_first pat (drop pos s)))"

text \<open>
  \<^verbatim>\<open>s.substr(pos, n)\<close> takes at most \<open>n\<close> bytes from \<open>pos\<close>; \<^verbatim>\<open>s.substr(pos)\<close> takes
  the rest. Both throw \<^verbatim>\<open>std::out_of_range\<close> when \<open>pos\<close> is past the end:
  \<open>substr_checked\<close> keeps that branch, \<open>substr\<close> and \<open>substr_from\<close> are used where
  the position was returned by a successful \<open>find\<close> and so lies inside the string.
\<close>

definition substr :: "string \<Rightarrow> nat \<Rightarrow> nat \<Rightarrow> string" where
  "substr s pos n = take n (drop pos s)"

definition substr_from :: "string \<Rightarrow> nat \<Rightarrow> string" where
  "substr_from s pos = drop pos s"

definition substr_checked :: "string \<Rightarrow> nat \<Rightarrow> nat \<Rightarrow> string option" where
  "substr_checked s pos n = (if length s < pos then None else Some (take n (drop pos s)))"

text \<open>
  \<^verbatim>\<open>size_t\<close> arithmetic is unsigned and wraps (64 bits on the targets the
  sources build for). Positions and lengths of a string are below \<open>2 ^ 64\<close>, so
  the difference of two of them is the exact one when it is not negative and
  is \<open>2 ^ 64\<close> more when it is.
\<close>

definition size_sub :: "nat \<Rightarrow> nat \<Rightarrow> nat" where
  "size_sub a b = (if b \<le> a then a - b else a + 2 ^ 64 - b)"

section \<open>The two rule splitters\<close>

text \<open>
  \<^verbatim>\<open>LegadoRuleParser::SplitRule(rule, baseRule, jsRule)\<close>: the two output
  parameters are cleared first and are returned here as a pair. There is no
  template flag and no ordering test on the two tags; the length passed to
  \<^verbatim>\<open>substr\<close> is the wrapped difference \<^verbatim>\<open>jsEnd - jsStart - 4\<close>.
\<close>

definition SplitRule :: "string \<Rightarrow> string \<times> string" where
  "SplitRule rule =
     (case str_find rule ''@js:'' 0 of
        Some jsPos \<Rightarrow> (substr rule 0 jsPos, substr_from rule (jsPos + 4))
      | None \<Rightarrow>
          (case (str_find rule ''<js>'' 0, str_find rule ''</js>'' 0) of
             (Some jsStart, Some jsEnd) \<Rightarrow>
               (substr rule 0 jsStart,
                substr rule (jsStart + 4) (size_sub (size_sub jsEnd jsStart) 4))
           | _ \<Rightarrow> (rule, [])))"

text \<open>
  \<^verbatim>\<open>JsRuleProcessor::ParseRule(rule, xpathPart, jsPart, isTemplate)\<close>: the three
  output parameters are returned as a triple (the function itself always returns
  \<^verbatim>\<open>true\<close>). A null or empty rule leaves all three cleared.
\<close>

definition JsRuleProcessor_ParseRule :: "string \<Rightarrow> string \<times> string \<times> bool" where
  "JsRuleProcessor_ParseRule rule =
     (if rule = [] then ([], [], False)
      else case str_find rule ''@js:'' 0 of
        Some jsPos \<Rightarrow> (substr rule 0 jsPos, substr_from rule (jsPos + 4), False)
      | None \<Rightarrow>
          (case (str_find rule ''<js>'' 0, str_find rule ''</js>'' 0) of
             (Some startTag, Some endTag) \<Rightarrow>
               if startTag < endTag
               then (substr rule 0 startTag,
                     substr rule (startTag + 4) (size_sub (size_sub endTag startTag) 4), False)
               else if str_find rule ''{{'' 0 \<noteq> None \<and> str_find rule ''}}'' 0 \<noteq> None
               then ([], rule, True)
               else (rule, [], False)
           | _ \<Rightarrow>
               if str_find rule ''{{'' 0 \<noteq> None \<and> str_find rule ''}}'' 0 \<noteq> None
               then ([], rule, True)
               else (rule, [], False)))"

text \<open>
  The splitter as section 4.1 of the specification words it: \<open>occurs\<close> is
  "the substring occurs anywhere", \<open>first_at\<close> is the position the rules call
  \<open>pos\<close>, the first occurrence.
\<close>

definition occurs :: "string \<Rightarrow> string \<Rightarrow> bool" where
  "occurs pat s = list_ex (\<lambda>i. prefix pat (drop i s)) [0..<Suc (length s)]"

definition first_at :: "string \<Rightarrow> string \<Rightarrow> nat" where
  "first_at pat s = length (takeWhile (\<lambda>i. \<not> prefix pat (drop i s)) [0..<Suc (length s)])"



section \<open>The CSS to XPath compiler\<close>

text \<open>
  \<^verbatim>\<open>LegadoRuleParser::CssToXPath\<close> reads the selector's parts with
  \<^verbatim>\<open>while (iss >> part)\<close>: each extraction skips leading white space (the six
  characters of \<^verbatim>\<open>isspace\<close> in the C locale) and then reads up to the next white
  space; the loop ends when nothing is left to read.
\<close>

definition is_space :: "char \<Rightarrow> bool" where
  "is_space c =
     (c = CHR '' '' \<or> c = CHR 0x09 \<or> c = CHR 0x0A \<or> c = CHR 0x0B \<or> c = CHR 0x0C \<or> c = CHR 0x0D)"

function extract_parts :: "string \<Rightarrow> string list" where
  "extract_parts s =
     (let s1 = dropWhile is_space s in
      if s1 = [] then []
      else takeWhile (\<lambda>c. \<not> is_space c) s1 # extract_parts (dropWhile (\<lambda>c. \<not> is_space c) s1))"
  by pat_completeness auto
termination
proof (relation "measure length")
  show "wf (measure length)" by simp
next
  fix s s1 :: string
  assume s1: "s1 = dropWhile is_space s" and ne: "s1 \<noteq> []"
  from ne obtain x xs where x: "s1 = x # xs" by (cases s1) simp_all
  have "\<not> is_space (hd s1)"
    unfolding s1 using ne [unfolded s1] by (rule hd_dropWhile)
  then have "\<not> is_space x" unfolding x by simp
  then have "dropWhile (\<lambda>c. \<not> is_space c) s1 = dropWhile (\<lambda>c. \<not> is_space c) xs"
    using x by simp
  moreover have "length (dropWhile (\<lambda>c. \<not> is_space c) xs) \<le> length xs"
    by (rule length_dropWhile_le)
  moreover have "length s1 \<le> length s" using s1 by (simp add: length_dropWhile_le)
  ultimately show "(dropWhile (\<lambda>c. \<not> is_space c) s1, s) \<in> measure length"
    using x by simp
qed

declare extract_parts.simps [simp del]

text \<open>
  One part of the selector. Each \<^verbatim>\<open>while (pos < len && ...)\<close> loop of the source
  appends the characters it passes to a field and leaves \<open>pos\<close> at the first
  character that stops it: the field is a \<open>takeWhile\<close> of the unread input and the
  unread input becomes the \<open>dropWhile\<close>. \<open>sq\<close> and \<open>dq\<close> are the single and the
  double quote.
\<close>

definition sq :: char where "sq = CHR 0x27"

definition dq :: char where "dq = CHR 0x22"

definition name_char :: "char \<Rightarrow> bool" where
  "name_char c = (c \<noteq> CHR ''.'' \<and> c \<noteq> CHR ''#'' \<and> c \<noteq> CHR ''['')"

definition attr_char :: "char \<Rightarrow> bool" where
  "attr_char c = (c \<noteq> CHR ''='' \<and> c \<noteq> CHR '']'')"

definition value_char :: "char \<Rightarrow> bool" where
  "value_char c = (c \<noteq> dq \<and> c \<noteq> sq \<and> c \<noteq> CHR '']'')"

definition parse_tag :: "string \<Rightarrow> string \<times> string" where
  "parse_tag p =
     (let tag = ''*'' @ takeWhile name_char p in
      (if tag = ''*'' then ''*'' else substr_from tag 1, dropWhile name_char p))"

definition parse_class :: "string \<Rightarrow> string \<times> string" where
  "parse_class r =
     (case r of
        c # cs \<Rightarrow> if c = CHR ''.'' then (takeWhile name_char cs, dropWhile name_char cs) else ([], r)
      | [] \<Rightarrow> ([], r))"

definition parse_id :: "string \<Rightarrow> string \<times> string" where
  "parse_id r =
     (case r of
        c # cs \<Rightarrow> if c = CHR ''#'' then (takeWhile name_char cs, dropWhile name_char cs) else ([], r)
      | [] \<Rightarrow> ([], r))"

definition parse_attr :: "string \<Rightarrow> string \<times> string" where
  "parse_attr r =
     (case r of
        c # cs \<Rightarrow>
          if c = CHR ''[''
          then (takeWhile attr_char cs,
                case dropWhile attr_char cs of
                  d # ds \<Rightarrow>
                    if d = CHR ''=''
                    then takeWhile value_char
                           (case ds of q # qs \<Rightarrow> if q = dq \<or> q = sq then qs else ds | [] \<Rightarrow> ds)
                    else []
                | [] \<Rightarrow> [])
          else ([], [])
      | [] \<Rightarrow> ([], []))"

definition build_predicate :: "string \<Rightarrow> string \<Rightarrow> string \<Rightarrow> string \<Rightarrow> string" where
  "build_predicate className ident attr attrValue =
     (let p1 = (if className \<noteq> [] then ''contains(@class,'' @ [sq] @ className @ [sq] @ '')'' else []);
          p2 = (if ident \<noteq> []
                then (if p1 \<noteq> [] then p1 @ '' and '' else p1) @ ''@id='' @ [sq] @ ident @ [sq]
                else p1);
          p3 = (if attr \<noteq> []
                then (if p2 \<noteq> [] then p2 @ '' and '' else p2) @
                     (if attrValue \<noteq> [] then ''@'' @ attr @ ''='' @ [sq] @ attrValue @ [sq]
                      else ''@'' @ attr)
                else p2)
      in p3)"

definition part_xpath :: "string \<Rightarrow> string" where
  "part_xpath p =
     (let (tag, r1) = parse_tag p;
          (className, r2) = parse_class r1;
          (ident, r3) = parse_id r2;
          (attr, attrValue) = parse_attr r3;
          predicate = build_predicate className ident attr attrValue
      in (if tag = [] then ''*'' else tag) @
         (if predicate \<noteq> [] then ''['' @ predicate @ '']'' else []))"

text \<open>
  The suffix that the trailing \<^verbatim>\<open>@attrName\<close> of the selector adds.
\<close>

definition attr_suffix :: "string \<Rightarrow> string" where
  "attr_suffix attrExtract =
     (if attrExtract \<noteq> []
      then (if attrExtract = ''text'' then ''/text()''
            else if attrExtract = ''html'' \<or> attrExtract = ''innerHtml'' then []
            else ''/@'' @ attrExtract)
      else [])"

text \<open>
  A character that neither ends a part nor starts the suffix.
\<close>

definition plain :: "char \<Rightarrow> bool" where
  "plain c = (\<not> is_space c \<and> c \<noteq> CHR ''@'')"

text \<open>
  The whole compiler: the selector is cut at its first \<^verbatim>\<open>@\<close> when that is not
  the first character, the result starts as \<^verbatim>\<open>"/"\<close>, and every part appends
  \<^verbatim>\<open>"/"\<close> and its own step.
\<close>

definition CssToXPath :: "string \<Rightarrow> string" where
  "CssToXPath css =
     (let (selector, attrExtract) =
            (case str_find css ''@'' 0 of
               Some atPos \<Rightarrow>
                 if 0 < atPos then (substr css 0 atPos, substr_from css (atPos + 1)) else (css, [])
             | None \<Rightarrow> (css, []));
          parts = extract_parts selector;
          xpath = foldl (\<lambda>x p. x @ ''/'' @ part_xpath p) ''/'' parts
      in xpath @ attr_suffix attrExtract)"

section \<open>The script engine wrapper\<close>

text \<open>
  The QuickJS virtual machine is external. It is a state \<open>'vm\<close> and a function
  for \<^verbatim>\<open>JS_Eval\<close> that returns the completion and the next state: either the
  value, already converted as \<^verbatim>\<open>jsValueToString\<close> does (empty for
  \<^verbatim>\<open>undefined\<close>, \<^verbatim>\<open>null\<close> and a failed conversion), or an exception: whether
  the thrown value is \<^verbatim>\<open>undefined\<close> or \<^verbatim>\<open>null\<close>, and the text
  \<^verbatim>\<open>JS_ToCString\<close> gives for it (\<open>None\<close> for a null pointer).
  \<^verbatim>\<open>Reader::QuickJsEngine\<close> keeps the context (null when its creation failed)
  and the error state.
\<close>

datatype js_completion = JsValue string | JsException bool "string option"

type_synonym 'vm js_eval = "'vm \<Rightarrow> string \<Rightarrow> js_completion \<times> 'vm"

record 'vm QuickJsEngine =
  m_context :: "'vm option"
  m_lastError :: string
  m_hasError :: bool

definition clearError :: "'vm QuickJsEngine \<Rightarrow> 'vm QuickJsEngine" where
  "clearError e = e\<lparr>m_lastError := [], m_hasError := False\<rparr>"

definition setError :: "string \<Rightarrow> 'vm QuickJsEngine \<Rightarrow> 'vm QuickJsEngine" where
  "setError err e = e\<lparr>m_lastError := err, m_hasError := True\<rparr>"

definition eval :: "'vm js_eval \<Rightarrow> string \<Rightarrow> 'vm QuickJsEngine \<Rightarrow> string \<times> 'vm QuickJsEngine" where
  "eval JS_Eval code e0 =
     (let e = clearError e0 in
      case m_context e of
        None \<Rightarrow> ([], setError ''JS context not initialized'' e)
      | Some vm \<Rightarrow>
          (case JS_Eval vm code of
             (JsException nullish str, vm') \<Rightarrow>
               ([], setError (case str of Some m \<Rightarrow> ''JS Error: '' @ m
                                         | None \<Rightarrow> ''Unknown JS error'')
                             (e\<lparr>m_context := Some vm'\<rparr>))
           | (JsValue resultStr, vm') \<Rightarrow> (resultStr, e\<lparr>m_context := Some vm'\<rparr>)))"

text \<open>
  \<^verbatim>\<open>setResult\<close> escapes the backslash, the double quote, the line feed, the
  carriage return and the tab, and evaluates an assignment to \<^verbatim>\<open>result\<close>.
\<close>

definition escape_char :: "char \<Rightarrow> string" where
  "escape_char c =
     (if c = CHR 0x5C then [CHR 0x5C, CHR 0x5C]
      else if c = dq then [CHR 0x5C, dq]
      else if c = CHR 0x0A then [CHR 0x5C, CHR ''n'']
      else if c = CHR 0x0D then [CHR 0x5C, CHR ''r'']
      else if c = CHR 0x09 then [CHR 0x5C, CHR ''t'']
      else [c])"

definition result_assignment :: "string \<Rightarrow> string" where
  "result_assignment v = ''var result = '' @ [dq] @ concat (map escape_char v) @ [dq] @ '';''"

definition setResult :: "'vm js_eval \<Rightarrow> string \<Rightarrow> 'vm QuickJsEngine \<Rightarrow> 'vm QuickJsEngine" where
  "setResult JS_Eval v e = snd (eval JS_Eval (result_assignment v) e)"

section \<open>The rule pipeline\<close>

text \<open>
  \<^verbatim>\<open>HtmlParser::HtmlParseByXpath(html, len, xpath, value, stop)\<close> is external:
  a function from the content, the XPath, the stop flag (\<open>None\<close> for a null
  pointer) and the vector it is given to its return code and the vector it
  leaves. The content is the \<open>len\<close> bytes at \<open>html\<close>, one string.
  \<^verbatim>\<open>LegadoRuleParser\<close> keeps the engine (a pointer that every use tests) and
  its own error state.
\<close>

type_synonym xpath_engine = "string \<Rightarrow> string \<Rightarrow> bool option \<Rightarrow> string list \<Rightarrow> int \<times> string list"

record 'vm LegadoRuleParser =
  m_jsEngine :: "'vm QuickJsEngine option"
  m_lastError_lrp :: string
  m_hasError_lrp :: bool

definition starts_with :: "string \<Rightarrow> string \<Rightarrow> bool" where
  "starts_with s pat = (str_find s pat 0 = Some 0)"

definition ParseXPathRule ::
  "xpath_engine \<Rightarrow> string \<Rightarrow> string \<Rightarrow> string list \<Rightarrow> bool option \<Rightarrow> int \<times> string list" where
  "ParseXPathRule X html xpath vals stop = X html xpath stop vals"

definition ParseCssRule ::
  "xpath_engine \<Rightarrow> string \<Rightarrow> string \<Rightarrow> string list \<Rightarrow> bool option \<Rightarrow> 'vm LegadoRuleParser
     \<Rightarrow> int \<times> string list \<times> 'vm LegadoRuleParser" where
  "ParseCssRule X html css vals stop st =
     (let xpath = CssToXPath css in
      if xpath = []
      then (1, vals, st\<lparr>m_hasError_lrp := True,
                         m_lastError_lrp := ''Failed to convert CSS to XPath: '' @ css\<rparr>)
      else (let (ret, vals') = ParseXPathRule X html xpath vals stop in (ret, vals', st)))"

definition ParseJsonPathRule ::
  "'vm js_eval \<Rightarrow> string \<Rightarrow> string \<Rightarrow> string list \<Rightarrow> bool option \<Rightarrow> 'vm LegadoRuleParser
     \<Rightarrow> int \<times> string list \<times> 'vm LegadoRuleParser" where
  "ParseJsonPathRule J json jsonpath vals stop st =
     (case m_jsEngine st of
        None \<Rightarrow> (1, vals, st\<lparr>m_hasError_lrp := True,
                               m_lastError_lrp := ''JS engine not initialized''\<rparr>)
      | Some e \<Rightarrow>
          (let e1 = setResult J json e;
               jsCode = (if starts_with jsonpath ''$.''
                         then ''var data = JSON.parse(result); data.'' @ substr_from jsonpath 2
                         else ''var data = JSON.parse(result); data.'' @ jsonpath);
               (result, e2) = eval J jsCode e1
           in if m_hasError e2
              then (1, vals, st\<lparr>m_jsEngine := Some e2, m_hasError_lrp := True,
                                 m_lastError_lrp := m_lastError e2\<rparr>)
              else (0, vals @ [result], st\<lparr>m_jsEngine := Some e2\<rparr>)))"

text \<open>
  \<^verbatim>\<open>LegadoRuleParser::ParseRule\<close> in its three stages. \<open>BasePhase\<close> is the block
  that fills the local \<^verbatim>\<open>baseResult\<close> and sets \<^verbatim>\<open>ret\<close>: it returns both and the
  parser's state.
\<close>

definition BasePhase ::
  "xpath_engine \<Rightarrow> 'vm js_eval \<Rightarrow> string \<Rightarrow> string \<Rightarrow> bool option \<Rightarrow> 'vm LegadoRuleParser
     \<Rightarrow> int \<times> string list \<times> 'vm LegadoRuleParser" where
  "BasePhase X J html baseRule stop st =
     (if baseRule \<noteq> []
      then (if starts_with baseRule ''@css:''
            then ParseCssRule X html (substr_from baseRule 5) [] stop st
            else if starts_with baseRule ''@json:'' \<or> starts_with baseRule ''$.''
            then ParseJsonPathRule J html
                   (if starts_with baseRule ''@json:'' then substr_from baseRule 6 else baseRule)
                   [] stop st
            else if starts_with baseRule ''//'' \<or> starts_with baseRule ''@XPath:''
            then (let (ret, baseResult) =
                        ParseXPathRule X html
                          (if starts_with baseRule ''@XPath:'' then substr_from baseRule 7
                           else baseRule)
                          [] stop
                  in (ret, baseResult, st))
            else (let xpath = CssToXPath baseRule in
                  if xpath \<noteq> []
                  then (let (ret, baseResult) = ParseXPathRule X html xpath [] stop
                        in (ret, baseResult, st))
                  else (0, [html], st)))
      else (0, [html], st))"

text \<open>
  The loop over the base results: the stop flag is read before every item; the
  item is bound to \<^verbatim>\<open>result\<close>, the script is evaluated, and the output vector
  takes the script's result, or the item itself when the engine reports an
  error, in which case the parser's flag and message are set. The accumulator is
  the engine, the output vector and the parser's flag and message.
\<close>

fun TailLoop ::
  "'vm js_eval \<Rightarrow> string \<Rightarrow> bool option \<Rightarrow> string list
     \<Rightarrow> 'vm QuickJsEngine \<times> string list \<times> bool \<times> string
     \<Rightarrow> 'vm QuickJsEngine \<times> string list \<times> bool \<times> string" where
  "TailLoop J jsRule stop [] acc = acc"
| "TailLoop J jsRule stop (item # items) (e, vals, herr, lerr) =
     (if stop = Some True then (e, vals, herr, lerr)
      else (let e1 = setResult J item e;
                (jsResult, e2) = eval J jsRule e1
            in if m_hasError e2
               then TailLoop J jsRule stop items (e2, vals @ [item], True, m_lastError e2)
               else TailLoop J jsRule stop items (e2, vals @ [jsResult], herr, lerr)))"

definition TailPhase ::
  "'vm js_eval \<Rightarrow> string \<Rightarrow> bool option \<Rightarrow> string list \<Rightarrow> string list \<Rightarrow> 'vm LegadoRuleParser
     \<Rightarrow> int \<times> string list \<times> 'vm LegadoRuleParser" where
  "TailPhase J jsRule stop baseResult vals st =
     (case m_jsEngine st of
        Some e \<Rightarrow>
          if jsRule \<noteq> []
          then (let (e', vals', herr, lerr) =
                      TailLoop J jsRule stop baseResult (e, vals, m_hasError_lrp st, m_lastError_lrp st)
                in (0, vals', st\<lparr>m_jsEngine := Some e', m_lastError_lrp := lerr,
                                  m_hasError_lrp := herr\<rparr>))
          else (0, baseResult, st)
      | None \<Rightarrow> (0, baseResult, st))"

definition ParseRule ::
  "xpath_engine \<Rightarrow> 'vm js_eval \<Rightarrow> string \<Rightarrow> string \<Rightarrow> string list \<Rightarrow> bool option
     \<Rightarrow> 'vm LegadoRuleParser \<Rightarrow> int \<times> string list \<times> 'vm LegadoRuleParser" where
  "ParseRule X J html rule vals stop st0 =
     (let st = st0\<lparr>m_hasError_lrp := False, m_lastError_lrp := []\<rparr> in
      if rule = [] then (0, vals, st)
      else (let (baseRule, jsRule) = SplitRule rule;
                (ret, baseResult, st1) = BasePhase X J html baseRule stop st
            in if ret \<noteq> 0 then (ret, vals, st1)
               else TailPhase J jsRule stop baseResult vals st1))"






text \<open>
  How JavaScript reads the body of a double-quoted string literal that holds no
  other escape than the five \<open>setResult\<close> writes: a backslash before a
  backslash, a double quote, \<open>n\<close>, \<open>r\<close> or \<open>t\<close> stands for that character,
  the line feed or carriage return or tab; a bare double quote, line feed or
  carriage return cannot stand in the body; any other character stands for
  itself. The result is \<open>None\<close> for a body that is no literal in this reading.
  \<open>binds_result\<close> is what the pipeline expects of the virtual machine: an
  assignment of such a literal to \<^verbatim>\<open>result\<close> completes, and the state it leaves
  holds the literal's value as \<^verbatim>\<open>result\<close> (read by \<open>get\<close>).
\<close>

fun js_literal_value :: "string \<Rightarrow> string option" where
  "js_literal_value [] = Some []"
| "js_literal_value (c # cs) =
     (if c = CHR 0x5C
      then (case cs of
              [] \<Rightarrow> None
            | d # ds \<Rightarrow>
                if d = CHR 0x5C then map_option ((#) (CHR 0x5C)) (js_literal_value ds)
                else if d = dq then map_option ((#) dq) (js_literal_value ds)
                else if d = CHR ''n'' then map_option ((#) (CHR 0x0A)) (js_literal_value ds)
                else if d = CHR ''r'' then map_option ((#) (CHR 0x0D)) (js_literal_value ds)
                else if d = CHR ''t'' then map_option ((#) (CHR 0x09)) (js_literal_value ds)
                else None)
      else if c = dq \<or> c = CHR 0x0A \<or> c = CHR 0x0D then None
      else map_option ((#) c) (js_literal_value cs))"


text \<open>
  What the loop meets item by item: \<open>outcomes\<close> lists, for the items in order,
  the script's result and the engine as the evaluation left it, each item bound
  to \<^verbatim>\<open>result\<close> in the engine the item before it left. \<open>failed\<close> reads the
  engine's error flag of one outcome.
\<close>

fun outcomes ::
  "'vm js_eval \<Rightarrow> string \<Rightarrow> string list \<Rightarrow> 'vm QuickJsEngine \<Rightarrow> (string \<times> 'vm QuickJsEngine) list" where
  "outcomes J jsRule [] e = []"
| "outcomes J jsRule (item # items) e =
     eval J jsRule (setResult J item e)
       # outcomes J jsRule items (snd (eval J jsRule (setResult J item e)))"

definition failed :: "string \<times> 'vm QuickJsEngine \<Rightarrow> bool" where
  "failed oc = m_hasError (snd oc)"

definition degrade :: "string \<times> string \<times> 'vm QuickJsEngine \<Rightarrow> string" where
  "degrade io = (if failed (snd io) then fst io else fst (snd io))"

text \<open>
  Stand-ins for the two external engines, for concrete runs. The XPath engine
  \<open>two_nodes\<close> finds the nodes \<open>A\<close> and \<open>B\<close> for every XPath; \<open>broken_xpath\<close>
  fails after it has found one node; \<open>odd_nodes\<close> finds \<open>A\<close> and a node
  that is the single byte \<open>0xFF\<close>. The virtual machine \<open>doubling_vm\<close> keeps
  the value of \<^verbatim>\<open>result\<close> as its state: an assignment as \<open>setResult\<close> writes
  it stores the value of the literal between the quotes (and is a syntax error
  when that is no literal), and any other code returns the value twice, or
  throws when the value is \<open>B\<close>. \<open>utf8_vm\<close> is the same machine except that
  it refuses a literal that holds the byte \<open>0xFF\<close>, which no UTF-8 text
  holds, and that its other code never throws. \<open>logging_vm\<close> only records the
  code it is given.
\<close>

definition two_nodes :: xpath_engine where
  "two_nodes html xpath stop vals = (0, vals @ [''A'', ''B''])"

definition broken_xpath :: xpath_engine where
  "broken_xpath html xpath stop vals = (1, vals @ [''partial''])"

definition odd_nodes :: xpath_engine where
  "odd_nodes html xpath stop vals = (0, vals @ [''A'', [CHR 0xFF]])"

definition doubling_vm :: "string js_eval" where
  "doubling_vm vm code =
     (if 16 \<le> length code \<and> take 14 code = ''var result = '' @ [dq]
         \<and> drop (length code - 2) code = [dq] @ '';''
      then (case js_literal_value (take (length code - 16) (drop 14 code)) of
              Some v \<Rightarrow> (JsValue [], v)
            | None \<Rightarrow> (JsException False (Some ''SyntaxError''), vm))
      else if vm = ''B'' then (JsException False (Some ''boom''), vm)
      else (JsValue (vm @ vm), vm))"

definition utf8_vm :: "string js_eval" where
  "utf8_vm vm code =
     (if 16 \<le> length code \<and> take 14 code = ''var result = '' @ [dq]
         \<and> drop (length code - 2) code = [dq] @ '';''
      then (if CHR 0xFF \<in> set code
            then (JsException False (Some ''SyntaxError: invalid UTF-8 sequence''), vm)
            else case js_literal_value (take (length code - 16) (drop 14 code)) of
                   Some v \<Rightarrow> (JsValue [], v)
                 | None \<Rightarrow> (JsException False (Some ''SyntaxError''), vm))
      else (JsValue (vm @ vm), vm))"

definition logging_vm :: "string list js_eval" where
  "logging_vm vm code = (JsValue [], vm @ [code])"

definition new_parser :: "'vm \<Rightarrow> 'vm LegadoRuleParser" where
  "new_parser vm =
     \<lparr>m_jsEngine = Some \<lparr>m_context = Some vm, m_lastError = [], m_hasError = False\<rparr>,
      m_lastError_lrp = [], m_hasError_lrp = False\<rparr>"

section \<open>The template expanders\<close>

lemma str_find_ge: "str_find s pat pos = Some i \<Longrightarrow> pos \<le> i"
  by (auto simp: str_find_def split: if_splits)

text \<open>
  \<^verbatim>\<open>Reader::QuickJsEngine::processTemplate\<close>: the loop carries the position, the
  output built so far and the engine. The closing marker is searched from the
  opening one.
\<close>

function processTemplate_loop ::
  "'vm js_eval \<Rightarrow> string \<Rightarrow> nat \<Rightarrow> string \<Rightarrow> 'vm QuickJsEngine \<Rightarrow> string \<times> 'vm QuickJsEngine" where
  "processTemplate_loop J templateStr pos result e =
     (if pos < length templateStr
      then (case str_find templateStr ''{{'' pos of
              None \<Rightarrow> (result @ substr_from templateStr pos, e)
            | Some start \<Rightarrow>
                (case str_find templateStr ''}}'' start of
                   None \<Rightarrow>
                     (result @ substr templateStr pos (size_sub start pos)
                        @ substr_from templateStr start, e)
                 | Some endp \<Rightarrow>
                     (case eval J (substr templateStr (start + 2) (size_sub (size_sub endp start) 2)) e of
                        (v, e') \<Rightarrow>
                          processTemplate_loop J templateStr (endp + 2)
                            (result @ substr templateStr pos (size_sub start pos) @ v) e')))
      else (result, e))"
  by pat_completeness auto
termination
  by (relation "measure (\<lambda>(J, t, pos, result, e). length t - pos)")
     (auto dest!: str_find_ge)

declare processTemplate_loop.simps [simp del]

definition processTemplate ::
  "'vm js_eval \<Rightarrow> string \<Rightarrow> 'vm QuickJsEngine \<Rightarrow> string \<times> 'vm QuickJsEngine" where
  "processTemplate J templateStr e = processTemplate_loop J templateStr 0 [] e"

text \<open>
  \<^verbatim>\<open>reader::JsEngine\<close>, the engine of \<^verbatim>\<open>JsRuleProcessor\<close>. Setting a global
  property is a second function of the virtual machine. \<^verbatim>\<open>c_str\<close> is what a
  \<^verbatim>\<open>const char*\<close> shows of a string: the bytes before the first zero.
  \<^verbatim>\<open>evaluate\<close> wraps code without a semicolon and without a declaration
  keyword at its start in parentheses, and keeps the last error on success. On
  an exception the last error is \<^verbatim>\<open>jsValueToString\<close> of the thrown value: empty
  for \<^verbatim>\<open>undefined\<close> and \<^verbatim>\<open>null\<close>, its text otherwise.
\<close>

type_synonym 'vm js_set_global = "'vm \<Rightarrow> string \<Rightarrow> string \<Rightarrow> 'vm"

definition c_str :: "string \<Rightarrow> string" where
  "c_str s = takeWhile (\<lambda>c. c \<noteq> CHR 0x00) s"

record 'vm JsEngine =
  m_context_je :: 'vm
  m_initialized_je :: bool
  m_lastError_je :: string

definition setVariable ::
  "'vm js_set_global \<Rightarrow> string \<Rightarrow> string \<Rightarrow> 'vm JsEngine \<Rightarrow> 'vm JsEngine" where
  "setVariable S name v e =
     (if \<not> m_initialized_je e then e
      else e\<lparr>m_context_je := S (m_context_je e) (c_str name) (c_str v)\<rparr>)"

definition evaluate :: "'vm js_eval \<Rightarrow> string \<Rightarrow> 'vm JsEngine \<Rightarrow> string \<times> 'vm JsEngine" where
  "evaluate J code e =
     (if \<not> m_initialized_je e then ([], e\<lparr>m_lastError_je := ''Engine not initialized''\<rparr>)
      else (let wrappedCode =
                  (if str_find code '';'' 0 = None \<and> \<not> starts_with code ''var ''
                      \<and> \<not> starts_with code ''let '' \<and> \<not> starts_with code ''const ''
                      \<and> \<not> starts_with code ''function''
                   then ''('' @ code @ '')'' else code)
            in case J (m_context_je e) wrappedCode of
                 (JsException nullish str, vm') \<Rightarrow>
                   ([], e\<lparr>m_context_je := vm',
                           m_lastError_je := (if nullish then []
                                              else case str of Some m \<Rightarrow> m | None \<Rightarrow> [])\<rparr>)
               | (JsValue output, vm') \<Rightarrow> (output, e\<lparr>m_context_je := vm'\<rparr>)))"

text \<open>
  \<^verbatim>\<open>JsRuleProcessor::EvaluateTemplate\<close>: without an initialised engine the
  template is returned as it is and the error is recorded. Otherwise
  \<^verbatim>\<open>result\<close> and, when given, \<^verbatim>\<open>baseUrl\<close> are set, and the loop runs: it
  searches the closing marker after the opening one, and an expression that
  starts with \<^verbatim>\<open>@css:\<close> or \<^verbatim>\<open>@XPath:\<close> is copied with its markers and not
  evaluated.
\<close>

function EvaluateTemplate_loop ::
  "'vm js_eval \<Rightarrow> string \<Rightarrow> nat \<Rightarrow> string \<Rightarrow> 'vm JsEngine \<Rightarrow> string \<times> 'vm JsEngine" where
  "EvaluateTemplate_loop J templateStr pos output e =
     (if pos < length templateStr
      then (case str_find templateStr ''{{'' pos of
              None \<Rightarrow> (output @ substr_from templateStr pos, e)
            | Some start \<Rightarrow>
                (case str_find templateStr ''}}'' (start + 2) of
                   None \<Rightarrow>
                     (output @ substr templateStr pos (size_sub start pos)
                        @ substr_from templateStr start, e)
                 | Some endp \<Rightarrow>
                     (let expr = substr templateStr (start + 2) (size_sub (size_sub endp start) 2)
                      in if starts_with expr ''@css:'' \<or> starts_with expr ''@XPath:''
                         then EvaluateTemplate_loop J templateStr (endp + 2)
                                (output @ substr templateStr pos (size_sub start pos)
                                   @ ''{{'' @ expr @ ''}}'') e
                         else (case evaluate J expr e of
                                 (v, e') \<Rightarrow>
                                   EvaluateTemplate_loop J templateStr (endp + 2)
                                     (output @ substr templateStr pos (size_sub start pos) @ v) e'))))
      else (output, e))"
  by pat_completeness auto
termination
  by (relation "measure (\<lambda>(J, t, pos, output, e). length t - pos)")
     (auto dest!: str_find_ge)

declare EvaluateTemplate_loop.simps [simp del]

record 'vm JsRuleProcessor =
  m_engine :: "'vm JsEngine option"
  m_initialized :: bool
  m_lastError_jrp :: string

definition EvaluateTemplate ::
  "'vm js_eval \<Rightarrow> 'vm js_set_global \<Rightarrow> string \<Rightarrow> string \<Rightarrow> string option \<Rightarrow> 'vm JsRuleProcessor
     \<Rightarrow> string \<times> 'vm JsRuleProcessor" where
  "EvaluateTemplate J S templateStr result baseUrl p =
     (case m_engine p of
        None \<Rightarrow> (templateStr, p\<lparr>m_lastError_jrp := ''JS engine not initialized''\<rparr>)
      | Some e0 \<Rightarrow>
          if \<not> m_initialized p
          then (templateStr, p\<lparr>m_lastError_jrp := ''JS engine not initialized''\<rparr>)
          else (let e1 = setVariable S ''result'' result e0;
                    e2 = (case baseUrl of Some u \<Rightarrow> setVariable S ''baseUrl'' u e1 | None \<Rightarrow> e1);
                    (output, e3) = EvaluateTemplate_loop J templateStr 0 [] e2
                in (output, p\<lparr>m_engine := Some e3\<rparr>)))"

text \<open>
  The expander as section 4.5 of the specification words it, over the text
  that is still to be scanned: find the next opening marker, copy what is
  before it, find the next closing marker after it; without one the rest is
  copied as it is, with one the text between the markers is handed to \<open>ev\<close>,
  its result is appended and the scan goes on after the closing marker.
\<close>

function spec_expand :: "(string \<Rightarrow> 'e \<Rightarrow> string \<times> 'e) \<Rightarrow> string \<Rightarrow> 'e \<Rightarrow> string \<times> 'e" where
  "spec_expand ev s e =
     (if \<not> occurs ''{{'' s then (s, e)
      else if \<not> occurs ''}}'' (drop (first_at ''{{'' s + 2) s) then (s, e)
      else (case ev (take (first_at ''}}'' (drop (first_at ''{{'' s + 2) s))
                          (drop (first_at ''{{'' s + 2) s)) e of
              (v, e1) \<Rightarrow>
                (case spec_expand ev
                        (drop (first_at ''}}'' (drop (first_at ''{{'' s + 2) s) + 2)
                              (drop (first_at ''{{'' s + 2) s)) e1 of
                   (out, e2) \<Rightarrow> (take (first_at ''{{'' s) s @ v @ out, e2))))"
  by pat_completeness auto
termination
proof (relation "measure (\<lambda>(ev, s, e). length s)")
  show "wf (measure (\<lambda>(ev, s, e). length s))" by simp
next
  fix ev :: "string \<Rightarrow> 'e \<Rightarrow> string \<times> 'e" and s :: string and e x :: 'e and v :: string
    and y :: "string \<times> 'e"
  assume "\<not> \<not> occurs ''{{'' s"
  then have "s \<noteq> []" by (auto simp: occurs_def)
  then show "((ev, drop (first_at ''}}'' (drop (first_at ''{{'' s + 2) s) + 2)
                 (drop (first_at ''{{'' s + 2) s), x), ev, s, e)
        \<in> measure (\<lambda>(ev, s, e). length s)"
    by simp
qed

declare spec_expand.simps [simp del]

text \<open>
  What the loop of \<open>EvaluateTemplate\<close> does with one expression: a selector
  is kept with its markers, anything else is evaluated.
\<close>

definition evaluate_or_keep :: "'vm js_eval \<Rightarrow> string \<Rightarrow> 'vm JsEngine \<Rightarrow> string \<times> 'vm JsEngine" where
  "evaluate_or_keep J expr e =
     (if starts_with expr ''@css:'' \<or> starts_with expr ''@XPath:''
      then (''{{'' @ expr @ ''}}'', e)
      else evaluate J expr e)"

text \<open>
  Stand-ins for concrete runs: a virtual machine that knows the value of
  \<open>1+1\<close> (also in parentheses, as \<open>evaluate\<close> wraps it) and returns \<open>X\<close>
  for any other code, and the engines and the processor around it.
\<close>

definition sum_vm :: "unit js_eval" where
  "sum_vm vm code = (if code = ''1+1'' \<or> code = ''(1+1)'' then (JsValue ''2'', vm) else (JsValue ''X'', vm))"

definition new_engine :: "unit QuickJsEngine" where
  "new_engine = \<lparr>m_context = Some (), m_lastError = [], m_hasError = False\<rparr>"

definition new_JsEngine :: "unit JsEngine" where
  "new_JsEngine = \<lparr>m_context_je = (), m_initialized_je = True, m_lastError_je = []\<rparr>"

definition new_processor :: "unit JsRuleProcessor" where
  "new_processor = \<lparr>m_engine = Some new_JsEngine, m_initialized = True, m_lastError_jrp = []\<rparr>"

definition no_globals :: "unit js_set_global" where
  "no_globals vm name v = vm"

section \<open>The rule kinds of the converter\<close>

text \<open>
  \<^verbatim>\<open>is_xpath_rule\<close> of \<^verbatim>\<open>LegadoConverter.cpp\<close> compares the first bytes with
  \<^verbatim>\<open>strncmp\<close>; \<^verbatim>\<open>convert_legado_rule_to_xpath\<close> then skips seven bytes for
  either spelling of the prefix (\<open>xpath_rule_body\<close>).
\<close>

definition strncmp_eq :: "string \<Rightarrow> string \<Rightarrow> nat \<Rightarrow> bool" where
  "strncmp_eq s pat n = (take n s = take n pat)"

definition is_xpath_rule :: "string \<Rightarrow> bool" where
  "is_xpath_rule rule =
     (if rule = [] then False
      else if strncmp_eq rule ''//'' 2 then True
      else if strncmp_eq rule ''@XPath:'' 7 then True
      else if strncmp_eq rule ''@xpath:'' 7 then True
      else False)"

definition xpath_rule_body :: "string \<Rightarrow> string" where
  "xpath_rule_body rule =
     (if strncmp_eq rule ''@XPath:'' 7 \<or> strncmp_eq rule ''@xpath:'' 7 then drop 7 rule else rule)"

section \<open>MD5 in the script bridge\<close>

text \<open>
  \<^verbatim>\<open>md5_transform\<close> of \<^verbatim>\<open>QuickJsEngine.cpp\<close> with its macros, over 32-bit
  words. Every step macro \<^verbatim>\<open>FF(a, b, c, d, x, s, ac)\<close> assigns its first
  argument; here it returns the new value.
\<close>

definition md5_F :: "32 word \<Rightarrow> 32 word \<Rightarrow> 32 word \<Rightarrow> 32 word" where
  "md5_F x y z = (x AND y) OR (NOT x AND z)"

definition md5_G :: "32 word \<Rightarrow> 32 word \<Rightarrow> 32 word \<Rightarrow> 32 word" where
  "md5_G x y z = (x AND z) OR (y AND NOT z)"

definition md5_H :: "32 word \<Rightarrow> 32 word \<Rightarrow> 32 word \<Rightarrow> 32 word" where
  "md5_H x y z = x XOR y XOR z"

definition md5_I :: "32 word \<Rightarrow> 32 word \<Rightarrow> 32 word \<Rightarrow> 32 word" where
  "md5_I x y z = y XOR (x OR NOT z)"

definition ROTATE_LEFT :: "32 word \<Rightarrow> nat \<Rightarrow> 32 word" where
  "ROTATE_LEFT x n = push_bit n x OR drop_bit (32 - n) x"

definition FF :: "32 word \<Rightarrow> 32 word \<Rightarrow> 32 word \<Rightarrow> 32 word \<Rightarrow> 32 word \<Rightarrow> nat \<Rightarrow> 32 word \<Rightarrow> 32 word" where
  "FF a b c d x s ac = ROTATE_LEFT (a + (md5_F b c d + x + ac)) s + b"

definition GG :: "32 word \<Rightarrow> 32 word \<Rightarrow> 32 word \<Rightarrow> 32 word \<Rightarrow> 32 word \<Rightarrow> nat \<Rightarrow> 32 word \<Rightarrow> 32 word" where
  "GG a b c d x s ac = ROTATE_LEFT (a + (md5_G b c d + x + ac)) s + b"

definition HH :: "32 word \<Rightarrow> 32 word \<Rightarrow> 32 word \<Rightarrow> 32 word \<Rightarrow> 32 word \<Rightarrow> nat \<Rightarrow> 32 word \<Rightarrow> 32 word" where
  "HH a b c d x s ac = ROTATE_LEFT (a + (md5_H b c d + x + ac)) s + b"

definition II :: "32 word \<Rightarrow> 32 word \<Rightarrow> 32 word \<Rightarrow> 32 word \<Rightarrow> 32 word \<Rightarrow> nat \<Rightarrow> 32 word \<Rightarrow> 32 word" where
  "II a b c d x s ac = ROTATE_LEFT (a + (md5_I b c d + x + ac)) s + b"

definition load_word :: "8 word list \<Rightarrow> nat \<Rightarrow> 32 word" where
  "load_word block i =
     ucast (block ! (i * 4)) OR push_bit 8 (ucast (block ! (i * 4 + 1)))
       OR push_bit 16 (ucast (block ! (i * 4 + 2))) OR push_bit 24 (ucast (block ! (i * 4 + 3)))"

type_synonym md5_state = "32 word \<times> 32 word \<times> 32 word \<times> 32 word"

definition round1 :: "(nat \<Rightarrow> 32 word) \<Rightarrow> md5_state \<Rightarrow> md5_state" where
  "round1 x st =
     (case st of (a, b, c, d) \<Rightarrow>
      let a = FF a b c d (x 0) 7 0xd76aa478; d = FF d a b c (x 1) 12 0xe8c7b756;
          c = FF c d a b (x 2) 17 0x242070db; b = FF b c d a (x 3) 22 0xc1bdceee;
          a = FF a b c d (x 4) 7 0xf57c0faf; d = FF d a b c (x 5) 12 0x4787c62a;
          c = FF c d a b (x 6) 17 0xa8304613; b = FF b c d a (x 7) 22 0xfd469501;
          a = FF a b c d (x 8) 7 0x698098d8; d = FF d a b c (x 9) 12 0x8b44f7af;
          c = FF c d a b (x 10) 17 0xffff5bb1; b = FF b c d a (x 11) 22 0x895cd7be;
          a = FF a b c d (x 12) 7 0x6b901122; d = FF d a b c (x 13) 12 0xfd987193;
          c = FF c d a b (x 14) 17 0xa679438e; b = FF b c d a (x 15) 22 0x49b40821
      in (a, b, c, d))"

definition round2 :: "(nat \<Rightarrow> 32 word) \<Rightarrow> md5_state \<Rightarrow> md5_state" where
  "round2 x st =
     (case st of (a, b, c, d) \<Rightarrow>
      let a = GG a b c d (x 1) 5 0xf61e2562; d = GG d a b c (x 6) 9 0xc040b340;
          c = GG c d a b (x 11) 14 0x265e5a51; b = GG b c d a (x 0) 20 0xe9b6c7aa;
          a = GG a b c d (x 5) 5 0xd62f105d; d = GG d a b c (x 10) 9 0x02441453;
          c = GG c d a b (x 15) 14 0xd8a1e681; b = GG b c d a (x 4) 20 0xe7d3fbc8;
          a = GG a b c d (x 9) 5 0x21e1cde6; d = GG d a b c (x 14) 9 0xc33707d6;
          c = GG c d a b (x 3) 14 0xf4d50d87; b = GG b c d a (x 8) 20 0x455a14ed;
          a = GG a b c d (x 13) 5 0xa9e3e905; d = GG d a b c (x 2) 9 0xfcefa3f8;
          c = GG c d a b (x 7) 14 0x676f02d9; b = GG b c d a (x 12) 20 0x8d2a4c8a
      in (a, b, c, d))"

definition round3 :: "(nat \<Rightarrow> 32 word) \<Rightarrow> md5_state \<Rightarrow> md5_state" where
  "round3 x st =
     (case st of (a, b, c, d) \<Rightarrow>
      let a = HH a b c d (x 5) 4 0xfffa3942; d = HH d a b c (x 8) 11 0x8771f681;
          c = HH c d a b (x 11) 16 0x6d9d6122; b = HH b c d a (x 14) 23 0xfde5380c;
          a = HH a b c d (x 1) 4 0xa4beea44; d = HH d a b c (x 4) 11 0x4bdecfa9;
          c = HH c d a b (x 7) 16 0xf6bb4b60; b = HH b c d a (x 10) 23 0xbebfbc70;
          a = HH a b c d (x 13) 4 0x289b7ec6; d = HH d a b c (x 0) 11 0xeaa127fa;
          c = HH c d a b (x 3) 16 0xd4ef3085; b = HH b c d a (x 6) 23 0x04881d05;
          a = HH a b c d (x 9) 4 0xd9d4d039; d = HH d a b c (x 12) 11 0xe6db99e5;
          c = HH c d a b (x 15) 16 0x1fa27cf8; b = HH b c d a (x 2) 23 0xc4ac5665
      in (a, b, c, d))"

definition round4 :: "(nat \<Rightarrow> 32 word) \<Rightarrow> md5_state \<Rightarrow> md5_state" where
  "round4 x st =
     (case st of (a, b, c, d) \<Rightarrow>
      let a = II a b c d (x 0) 6 0xf4292244; d = II d a b c (x 7) 10 0x432aff97;
          c = II c d a b (x 14) 15 0xab9423a7; b = II b c d a (x 5) 21 0xfc93a039;
          a = II a b c d (x 12) 6 0x655b59c3; d = II d a b c (x 3) 10 0x8f0ccc92;
          c = II c d a b (x 10) 15 0xffeff47d; b = II b c d a (x 1) 21 0x85845dd1;
          a = II a b c d (x 8) 6 0x6fa87e4f; d = II d a b c (x 15) 10 0xfe2ce6e0;
          c = II c d a b (x 6) 15 0xa3014314; b = II b c d a (x 13) 21 0x4e0811a1;
          a = II a b c d (x 4) 6 0xf7537e82; d = II d a b c (x 11) 10 0xbd3af235;
          c = II c d a b (x 2) 15 0x2ad7d2bb; b = II b c d a (x 9) 21 0xeb86d391
      in (a, b, c, d))"

definition md5_transform :: "md5_state \<Rightarrow> 8 word list \<Rightarrow> md5_state" where
  "md5_transform state block =
     (case state of (s0, s1, s2, s3) \<Rightarrow>
      case round4 (load_word block) (round3 (load_word block)
             (round2 (load_word block) (round1 (load_word block) (s0, s1, s2, s3)))) of
        (a, b, c, d) \<Rightarrow> (s0 + a, s1 + b, s2 + c, s3 + d))"

text \<open>
  The output format \<^verbatim>\<open>std::hex << std::setfill('0') << std::setw(2)\<close> (and
  \<^verbatim>\<open>"%02x"\<close> of \<^verbatim>\<open>sprintf\<close>): the lower-case hexadecimal digits of the number,
  filled with \<^verbatim>\<open>0\<close> on the left up to two characters.
\<close>

definition hex_digit :: "nat \<Rightarrow> char" where
  "hex_digit d = ''0123456789abcdef'' ! d"

fun hex_digits :: "nat \<Rightarrow> string" where
  "hex_digits n = (if n < 16 then [hex_digit n] else hex_digits (n div 16) @ [hex_digit (n mod 16)])"

declare hex_digits.simps [simp del]

definition hex_w2 :: "nat \<Rightarrow> string" where
  "hex_w2 n = replicate (2 - length (hex_digits n)) (CHR ''0'') @ hex_digits n"

text \<open>
  The output loop of \<^verbatim>\<open>md5_encode\<close>: for each of the four state words, its four
  bytes from the lowest, each as two hexadecimal digits.
\<close>

definition state_hex :: "32 word list \<Rightarrow> string" where
  "state_hex state =
     concat (map (\<lambda>w. concat (map (\<lambda>k. hex_w2 (unat (drop_bit (k * 8) w AND 0xff))) [0..<4])) state)"

definition hex_lower :: "char \<Rightarrow> bool" where
  "hex_lower c = (c \<in> set ''0123456789abcdef'')"

text \<open>
  \<^verbatim>\<open>md5_encode\<close>: the whole 64-byte blocks are transformed in order, the rest is
  copied to the buffer and padded; the bit count is a 64-bit unsigned number.
\<close>

definition byte_of :: "char \<Rightarrow> 8 word" where
  "byte_of c = of_char c"

definition md5_init :: md5_state where
  "md5_init = (0x67452301, 0xefcdab89, 0x98badcfe, 0x10325476)"

definition md5_encode :: "string \<Rightarrow> string" where
  "md5_encode input =
     (let data = map byte_of input;
          len = length data;
          nblocks = len div 64;
          state1 = foldl (\<lambda>st k. md5_transform st (take 64 (drop (k * 64) data))) md5_init [0..<nblocks];
          i = nblocks * 64;
          index0 = len - i;
          count = (word_of_nat nblocks * 512 + word_of_nat index0 * 8 :: 64 word);
          buffer1 = take index0 (drop i data) @ [0x80];
          index1 = index0 + 1;
          (state2, buffer2) =
             (if 56 < index1
              then (md5_transform state1 (buffer1 @ replicate (64 - index1) 0), replicate 56 0)
              else (state1, buffer1 @ replicate (56 - index1) 0));
          buffer3 = buffer2 @ map (\<lambda>j. ucast (drop_bit (j * 8) count AND 0xff)) [0..<8]
      in case md5_transform state2 buffer3 of (s0, s1, s2, s3) \<Rightarrow> state_hex [s0, s1, s2, s3])"

text \<open>
  The two bridge functions of \<^verbatim>\<open>Reader::QuickJsEngine\<close>. The argument is
  \<open>None\<close> when there is none or when \<^verbatim>\<open>JS_ToCString\<close> fails; otherwise it is
  the C string read up to its first zero byte. \<^verbatim>\<open>substr(8, 16)\<close> throws when
  the digest is shorter than eight characters (\<open>OutOfRange\<close>); \<open>md5Encode\<close> has
  nothing that throws.
\<close>

datatype js_return = Returned string | OutOfRange

definition js_java_md5Encode :: "string option \<Rightarrow> string" where
  "js_java_md5Encode arg =
     (case arg of None \<Rightarrow> []
      | Some str \<Rightarrow> c_str (md5_encode (c_str str)))"

definition js_java_md5Encode16 :: "string option \<Rightarrow> js_return" where
  "js_java_md5Encode16 arg =
     (case arg of None \<Rightarrow> Returned []
      | Some str \<Rightarrow>
          (case substr_checked (md5_encode (c_str str)) 8 16 of
             None \<Rightarrow> OutOfRange
           | Some md5_16 \<Rightarrow> Returned (c_str md5_16)))"

text \<open>
  The two bridge functions of \<^verbatim>\<open>reader::JsEngine\<close>. The digest itself comes from
  the platform (\<^verbatim>\<open>MD5\<close> of OpenSSL, or the Windows crypto API, which can fail
  and then leaves the hash empty): \<open>D\<close> gives the sixteen bytes by index, or
  \<open>None\<close>.
\<close>

definition md5_hash :: "(string \<Rightarrow> (nat \<Rightarrow> 8 word) option) \<Rightarrow> string \<Rightarrow> string" where
  "md5_hash D input =
     (case D input of
        None \<Rightarrow> []
      | Some digest \<Rightarrow> c_str (concat (map (\<lambda>i. hex_w2 (unat (digest i))) [0..<16])))"

definition js_md5Encode :: "(string \<Rightarrow> (nat \<Rightarrow> 8 word) option) \<Rightarrow> string option \<Rightarrow> string" where
  "js_md5Encode D arg =
     (case arg of None \<Rightarrow> [] | Some str \<Rightarrow> c_str (md5_hash D (c_str str)))"

definition js_md5Encode16 :: "(string \<Rightarrow> (nat \<Rightarrow> 8 word) option) \<Rightarrow> string option \<Rightarrow> string" where
  "js_md5Encode16 D arg =
     (case arg of None \<Rightarrow> []
      | Some str \<Rightarrow>
          (let hash = md5_hash D (c_str str)
           in c_str (if 24 \<le> length hash then substr hash 8 16 else hash)))"

section \<open>Facts about searching\<close>

lemma occurs_iff: "occurs pat s = (\<exists>i\<le>length s. prefix pat (drop i s))"
  unfolding occurs_def list_ex_iff set_upt by (auto simp: less_Suc_eq_le)

lemma occurs_Nil: "occurs pat [] = (pat = [])"
  by (simp add: occurs_def)

lemma occurs_Cons: "occurs pat (c # cs) = (prefix pat (c # cs) \<or> occurs pat cs)"
proof
  assume "occurs pat (c # cs)"
  then obtain i where i: "i \<le> Suc (length cs)" "prefix pat (drop i (c # cs))"
    by (auto simp: occurs_iff)
  show "prefix pat (c # cs) \<or> occurs pat cs"
  proof (cases i)
    case 0
    with i show ?thesis by simp
  next
    case (Suc j)
    with i have "j \<le> length cs" "prefix pat (drop j cs)" by simp_all
    then show ?thesis unfolding occurs_iff by blast
  qed
next
  assume "prefix pat (c # cs) \<or> occurs pat cs"
  then show "occurs pat (c # cs)"
  proof
    assume "prefix pat (c # cs)"
    then have "prefix pat (drop 0 (c # cs))" by simp
    then show ?thesis unfolding occurs_iff by blast
  next
    assume "occurs pat cs"
    then obtain j where "j \<le> length cs" "prefix pat (drop j cs)"
      by (auto simp: occurs_iff)
    then have "Suc j \<le> length (c # cs)" "prefix pat (drop (Suc j) (c # cs))" by simp_all
    then show ?thesis unfolding occurs_iff by blast
  qed
qed

lemma upt_Suc_shift: "[0..<Suc (Suc n)] = 0 # map Suc [0..<Suc n]"
  by (metis map_Suc_upt upt_conv_Cons zero_less_Suc)

lemma first_at_Nil: "first_at pat [] = (if pat = [] then 0 else 1)"
  by (simp add: first_at_def)

lemma first_at_Cons:
  "first_at pat (c # cs) = (if prefix pat (c # cs) then 0 else Suc (first_at pat cs))"
  unfolding first_at_def length_Cons upt_Suc_shift
  by (simp add: takeWhile_map comp_def del: upt_Suc)

lemma find_first_None: "(find_first pat s = None) = (\<not> occurs pat s)"
  by (induction s) (auto simp: occurs_Nil occurs_Cons)

lemma find_first_Some: "find_first pat s = Some p \<Longrightarrow> p = first_at pat s"
  by (induction s arbitrary: p) (auto simp: first_at_Nil first_at_Cons split: if_splits)

lemma find_first_occurs: "occurs pat s \<Longrightarrow> find_first pat s = Some (first_at pat s)"
  using find_first_None [of pat s] find_first_Some [of pat s] by (cases "find_first pat s") auto

lemma find_first_prefix: "find_first pat s = Some p \<Longrightarrow> prefix pat (drop p s)"
  by (induction s arbitrary: p) (auto split: if_splits)

lemma find_first_bound: "find_first pat s = Some p \<Longrightarrow> p + length pat \<le> length s"
  by (induction s arbitrary: p) (auto split: if_splits dest: prefix_length_le)

lemma str_find_0: "str_find s pat 0 = find_first pat s"
  by (cases "find_first pat s") (simp_all add: str_find_def)

lemma starts_with_prefix: "pat \<noteq> [] \<Longrightarrow> starts_with s pat = prefix pat s"
  by (cases s) (auto simp: starts_with_def str_find_0)

section \<open>The splitters against section 4.1\<close>









text \<open>
  With the closing tag first, \<open>SplitRule\<close> still splits at the opening tag: the
  length it passes to \<^verbatim>\<open>substr\<close> has wrapped, and the tail is the rest of the
  rule. \<open>JsRuleProcessor_ParseRule\<close> tests the order and finds no script.
\<close>

lemma SplitRule_reversed_tags:
  "SplitRule ''</js>a<js>b'' = (''</js>a'', ''b'')
   \<and> JsRuleProcessor_ParseRule ''</js>a<js>b'' = (''</js>a<js>b'', [], False)"
  by (simp add: SplitRule_def JsRuleProcessor_ParseRule_def str_find_def substr_def size_sub_def)

section \<open>The CSS to XPath compiler: what it emits\<close>

lemma extract_parts_Nil: "extract_parts [] = []"
  by (simp add: extract_parts.simps)

lemma extract_parts_single:
  assumes "s \<noteq> []" "list_all (\<lambda>c. \<not> is_space c) s"
  shows "extract_parts s = [s]"
proof -
  from assms obtain x xs where s: "s = x # xs" and x: "\<not> is_space x"
    by (cases s) auto
  have d: "dropWhile is_space s = s" using s x by simp
  have t: "takeWhile (\<lambda>c. \<not> is_space c) s = s"
    using assms(2) by (simp add: list_all_iff)
  have r: "dropWhile (\<lambda>c. \<not> is_space c) s = []"
    using assms(2) by (simp add: list_all_iff)
  show ?thesis
    by (subst extract_parts.simps) (simp add: Let_def d t r extract_parts_Nil assms(1))
qed

lemma find_first_char_absent: "c \<notin> set s \<Longrightarrow> find_first [c] s = None"
  by (induction s) auto

lemma find_first_char_first:
  "c \<notin> set s \<Longrightarrow> find_first [c] (s @ c # t) = Some (length s)"
  by (induction s) auto

lemma steps_foldl:
  "foldl (\<lambda>x p. x @ CHR ''/'' # part_xpath p) acc parts
     = acc @ concat (map (\<lambda>p. CHR ''/'' # part_xpath p) parts)"
  by (induction parts arbitrary: acc) simp_all

lemma CssToXPath_starts_with_slash:
  "CssToXPath css \<noteq> [] \<and> hd (CssToXPath css) = CHR ''/''"
  by (simp add: CssToXPath_def Let_def steps_foldl split: prod.splits option.splits)

lemma CssToXPath_suffix:
  assumes "sel \<noteq> []" "CHR ''@'' \<notin> set sel"
  shows "CssToXPath (sel @ ''@'' @ a) = CssToXPath sel @ attr_suffix a"
proof -
  have 1: "str_find (sel @ ''@'' @ a) ''@'' 0 = Some (length sel)"
    using assms(2) by (simp add: str_find_0 find_first_char_first)
  have 2: "str_find sel ''@'' 0 = None"
    using assms(2) by (simp add: str_find_0 find_first_char_absent)
  show ?thesis
    using assms(1) 1 2
    by (simp add: CssToXPath_def Let_def substr_def substr_from_def attr_suffix_def)
qed

lemma takeWhile_stop: "list_all P xs \<Longrightarrow> \<not> P y \<Longrightarrow> takeWhile P (xs @ y # ys) = xs"
  by (induction xs) auto

lemma dropWhile_stop: "list_all P xs \<Longrightarrow> \<not> P y \<Longrightarrow> dropWhile P (xs @ y # ys) = y # ys"
  by (induction xs) auto

lemma part_xpath_full:
  assumes "list_all name_char tag" "list_all name_char cls" "list_all name_char ident"
    "list_all attr_char attr" "list_all value_char v"
    "cls \<noteq> []" "ident \<noteq> []" "attr \<noteq> []" "v \<noteq> []"
  shows "part_xpath (tag @ ''.'' @ cls @ ''#'' @ ident @ ''['' @ attr @ ''='' @ v @ '']'')
     = (if tag = [] then ''*'' else tag) @ ''[contains(@class,'' @ [sq] @ cls @ [sq]
         @ '') and @id='' @ [sq] @ ident @ [sq] @ '' and @'' @ attr @ ''='' @ [sq] @ v @ [sq] @ '']''"
proof -
  let ?r1 = "''.'' @ cls @ ''#'' @ ident @ ''['' @ attr @ ''='' @ v @ '']''"
  let ?r2 = "''#'' @ ident @ ''['' @ attr @ ''='' @ v @ '']''"
  let ?r3 = "''['' @ attr @ ''='' @ v @ '']''"
  have t: "parse_tag (tag @ ?r1) = (if tag = [] then ''*'' else tag, ?r1)"
    using assms(1) takeWhile_stop [of name_char tag "CHR ''.''"]
      dropWhile_stop [of name_char tag "CHR ''.''"]
    by (simp add: parse_tag_def Let_def substr_from_def name_char_def)
  have c: "parse_class ?r1 = (cls, ?r2)"
    using assms(2) takeWhile_stop [of name_char cls "CHR ''#''"]
      dropWhile_stop [of name_char cls "CHR ''#''"]
    by (simp add: parse_class_def name_char_def)
  have i: "parse_id ?r2 = (ident, ?r3)"
    using assms(3) takeWhile_stop [of name_char ident "CHR ''[''"]
      dropWhile_stop [of name_char ident "CHR ''[''"]
    by (simp add: parse_id_def name_char_def)
  obtain v0 vs where v: "v = v0 # vs" using assms(9) by (cases v) auto
  then have v0: "v0 \<noteq> dq" "v0 \<noteq> sq" using assms(5) by (auto simp: value_char_def)
  have a: "parse_attr ?r3 = (attr, v)"
    using assms(4,5) v0 takeWhile_stop [of attr_char attr "CHR ''=''"]
      dropWhile_stop [of attr_char attr "CHR ''=''"]
      takeWhile_stop [of value_char v "CHR '']''" "[]"]
    by (simp add: parse_attr_def attr_char_def value_char_def v)
  show ?thesis
    unfolding part_xpath_def t
    using c i a assms(6-9)
    by (simp add: build_predicate_def Let_def)
qed

lemma list_all_conj: "list_all (\<lambda>c. P c \<and> Q c) xs = (list_all P xs \<and> list_all Q xs)"
  by (induction xs) auto

lemma plain_marks:
  "plain (CHR ''.'')" "plain (CHR ''#'')" "plain (CHR ''['')" "plain (CHR ''='')" "plain (CHR '']'')"
  by (simp_all add: plain_def is_space_def)

lemma plain_no_at: "list_all plain s \<Longrightarrow> CHR ''@'' \<notin> set s"
  by (induction s) (auto simp: plain_def)

lemma plain_no_space: "list_all plain s \<Longrightarrow> list_all (\<lambda>c. \<not> is_space c) s"
  by (induction s) (auto simp: plain_def)

lemma CssToXPath_single_part:
  assumes "list_all (\<lambda>c. plain c \<and> name_char c) tag" "list_all (\<lambda>c. plain c \<and> name_char c) cls"
    "list_all (\<lambda>c. plain c \<and> name_char c) ident" "list_all (\<lambda>c. plain c \<and> attr_char c) attr"
    "list_all (\<lambda>c. plain c \<and> value_char c) v"
    "cls \<noteq> []" "ident \<noteq> []" "attr \<noteq> []" "v \<noteq> []"
  shows "CssToXPath (tag @ ''.'' @ cls @ ''#'' @ ident @ ''['' @ attr @ ''='' @ v @ '']'')
     = ''//'' @ (if tag = [] then ''*'' else tag) @ ''[contains(@class,'' @ [sq] @ cls @ [sq]
         @ '') and @id='' @ [sq] @ ident @ [sq] @ '' and @'' @ attr @ ''='' @ [sq] @ v @ [sq] @ '']''"
proof -
  define p where "p = tag @ ''.'' @ cls @ ''#'' @ ident @ ''['' @ attr @ ''='' @ v @ '']''"
  define q where "q = (if tag = [] then ''*'' else tag) @ ''[contains(@class,'' @ [sq] @ cls @ [sq]
         @ '') and @id='' @ [sq] @ ident @ [sq] @ '' and @'' @ attr @ ''='' @ [sq] @ v @ [sq] @ '']''"
  have parts: "list_all plain tag" "list_all plain cls" "list_all plain ident"
    "list_all plain attr" "list_all plain v"
    "list_all name_char tag" "list_all name_char cls" "list_all name_char ident"
    "list_all attr_char attr" "list_all value_char v"
    using assms(1-5) by (simp_all add: list_all_conj)
  have pl: "list_all plain p"
    unfolding p_def using parts(1-5) plain_marks by simp
  have ne: "p \<noteq> []" unfolding p_def by simp
  have f: "str_find p ''@'' 0 = None"
    using find_first_char_absent [OF plain_no_at [OF pl]] by (simp only: str_find_0)
  have e: "extract_parts p = [p]"
    using ne plain_no_space [OF pl] by (rule extract_parts_single)
  have x: "part_xpath p = q"
    unfolding p_def q_def using parts(6-10) assms(6-9) by (rule part_xpath_full)
  have "CssToXPath p = ''//'' @ q"
    by (simp add: CssToXPath_def f e x attr_suffix_def)
  then show ?thesis unfolding p_def q_def .
qed

text \<open>
  C3. The three selectors of the specification compile to the three XPaths it
  gives. A single part \<open>tag.class#id[attr=value]\<close> (the tag may be empty)
  compiles to one step whose predicate holds the class, the id and the
  attribute condition in that order, joined by \<open>and\<close>. A trailing
  \<open>@attrName\<close> after a selector that holds no \<open>@\<close> appends \<open>/text()\<close> for
  \<open>text\<close>, nothing for \<open>html\<close> and \<open>innerHtml\<close>, and \<open>/@attrName\<close> for any
  other name.
\<close>

theorem C3_css_compiler:
  "CssToXPath ''#id'' = ''//*[@id='' @ [sq] @ ''id'' @ [sq] @ '']''
   \<and> CssToXPath ''.cls'' = ''//*[contains(@class,'' @ [sq] @ ''cls'' @ [sq] @ '')]''
   \<and> CssToXPath ''div.cls#id[data-x=1]@text''
       = ''//div[contains(@class,'' @ [sq] @ ''cls'' @ [sq] @ '') and @id='' @ [sq] @ ''id'' @ [sq]
           @ '' and @data-x='' @ [sq] @ ''1'' @ [sq] @ '']/text()''
   \<and> (list_all (\<lambda>c. plain c \<and> name_char c) tag \<and> list_all (\<lambda>c. plain c \<and> name_char c) cls
        \<and> list_all (\<lambda>c. plain c \<and> name_char c) ident \<and> list_all (\<lambda>c. plain c \<and> attr_char c) attr
        \<and> list_all (\<lambda>c. plain c \<and> value_char c) v
        \<and> cls \<noteq> [] \<and> ident \<noteq> [] \<and> attr \<noteq> [] \<and> v \<noteq> [] \<longrightarrow>
        CssToXPath (tag @ ''.'' @ cls @ ''#'' @ ident @ ''['' @ attr @ ''='' @ v @ '']'')
          = ''//'' @ (if tag = [] then ''*'' else tag) @ ''[contains(@class,'' @ [sq] @ cls @ [sq]
              @ '') and @id='' @ [sq] @ ident @ [sq] @ '' and @'' @ attr @ ''='' @ [sq] @ v @ [sq]
              @ '']'')
   \<and> (sel \<noteq> [] \<and> CHR ''@'' \<notin> set sel \<and> a \<noteq> [] \<longrightarrow>
        CssToXPath (sel @ ''@'' @ a)
          = CssToXPath sel @ (if a = ''text'' then ''/text()''
                              else if a = ''html'' \<or> a = ''innerHtml'' then []
                              else ''/@'' @ a))"
proof -
  have ex1: "CssToXPath ''#id'' = ''//*[@id='' @ [sq] @ ''id'' @ [sq] @ '']''"
    by code_simp
  have ex2: "CssToXPath ''.cls'' = ''//*[contains(@class,'' @ [sq] @ ''cls'' @ [sq] @ '')]''"
    by code_simp
  have ex3: "CssToXPath ''div.cls#id[data-x=1]@text''
       = ''//div[contains(@class,'' @ [sq] @ ''cls'' @ [sq] @ '') and @id='' @ [sq] @ ''id'' @ [sq]
           @ '' and @data-x='' @ [sq] @ ''1'' @ [sq] @ '']/text()''"
    by code_simp
  have suffix: "CssToXPath (sel @ ''@'' @ a)
          = CssToXPath sel @ (if a = ''text'' then ''/text()''
                              else if a = ''html'' \<or> a = ''innerHtml'' then []
                              else ''/@'' @ a)"
    if "sel \<noteq> []" "CHR ''@'' \<notin> set sel" "a \<noteq> []"
    using CssToXPath_suffix [OF that(1,2), of a] that(3) by (simp add: attr_suffix_def)
  show ?thesis
    using ex1 ex2 ex3 CssToXPath_single_part [of tag cls ident attr v] suffix
    by blast
qed

theorem C3_css_compiler_witness:
  "CssToXPath ''li.item#first[data-k=v1]''
     = ''//li[contains(@class,'' @ [sq] @ ''item'' @ [sq] @ '') and @id='' @ [sq] @ ''first'' @ [sq]
         @ '' and @data-k='' @ [sq] @ ''v1'' @ [sq] @ '']''
   \<and> CssToXPath ''div.cls@href'' = CssToXPath ''div.cls'' @ ''/@href''"
proof -
  have 1: "list_all (\<lambda>c. plain c \<and> name_char c) ''li''"
    "list_all (\<lambda>c. plain c \<and> name_char c) ''item''"
    "list_all (\<lambda>c. plain c \<and> name_char c) ''first''"
    "list_all (\<lambda>c. plain c \<and> attr_char c) ''data-k''"
    "list_all (\<lambda>c. plain c \<and> value_char c) ''v1''"
    by (simp_all add: plain_def name_char_def attr_char_def value_char_def is_space_def sq_def dq_def)
  have 2: "''div.cls'' \<noteq> [] \<and> CHR ''@'' \<notin> set ''div.cls'' \<and> ''href'' \<noteq> []" by simp
  show ?thesis
    using C3_css_compiler [of "''li''" "''item''" "''first''" "''data-k''" "''v1''" "''div.cls''" "''href''"]
      1 2
    by simp
qed

text \<open>
  C4. Two parts separated by a space are joined by a single \<open>/\<close>, a child
  step: the result starts as \<open>/\<close> and every part adds one \<open>/\<close> before its
  step, so only the first step is a descendant step.
\<close>

theorem C4_parts_joined_by_child_step:
  "CssToXPath ''a b'' = ''//a/b''
   \<and> CssToXPath ''ancestor descendant'' = ''//ancestor/descendant''"
  by code_simp

text \<open>
  C9. The empty selector compiles to \<open>/\<close>, and no selector compiles to the
  empty string, so the test of \<open>ParseCssRule\<close> never finds a failed conversion:
  the empty selector is handed to the XPath engine as \<open>/\<close>.
\<close>

theorem C9_empty_selector_compiles:
  "CssToXPath [] = ''/''
   \<and> CssToXPath ''   '' = ''/''
   \<and> ParseCssRule X html [] vals stop st
       = (fst (X html ''/'' stop vals), snd (X html ''/'' stop vals), st)
   \<and> CssToXPath css \<noteq> []"
proof -
  have 1: "CssToXPath [] = ''/''" by code_simp
  have 2: "CssToXPath ''   '' = ''/''" by code_simp
  have 3: "ParseCssRule X html [] vals stop st
       = (fst (X html ''/'' stop vals), snd (X html ''/'' stop vals), st)"
    by (simp add: ParseCssRule_def 1 ParseXPathRule_def split: prod.splits)
  show ?thesis using 1 2 3 CssToXPath_starts_with_slash [of css] by simp
qed

section \<open>The pipeline\<close>

lemma TailLoop_outcomes:
  assumes "stop \<noteq> Some True"
  shows "TailLoop J jsRule stop items (e, vals, herr, lerr) =
    ((case outcomes J jsRule items e of [] \<Rightarrow> e | ocs \<Rightarrow> snd (last ocs)),
     vals @ map degrade (zip items (outcomes J jsRule items e)),
     herr \<or> list_ex failed (outcomes J jsRule items e),
     (case filter failed (outcomes J jsRule items e) of [] \<Rightarrow> lerr
      | fs \<Rightarrow> m_lastError (snd (last fs))))"
proof (induction items arbitrary: e vals herr lerr)
  case Nil
  then show ?case by simp
next
  case (Cons item items)
  obtain r e2 where ev: "eval J jsRule (setResult J item e) = (r, e2)"
    by (cases "eval J jsRule (setResult J item e)")
  show ?case
  proof (cases "m_hasError e2")
    case True
    then show ?thesis
      using assms ev Cons.IH [of e2 "vals @ [item]" True "m_lastError e2"]
      by (simp add: failed_def degrade_def split: list.splits)
  next
    case False
    then show ?thesis
      using assms ev Cons.IH [of e2 "vals @ [r]" herr lerr]
      by (simp add: failed_def degrade_def split: list.splits)
  qed
qed

lemma length_outcomes: "length (outcomes J jsRule items e) = length items"
  by (induction items arbitrary: e) simp_all

text \<open>
  The tail phase in terms of the engine: the output takes the script's result,
  or the item when the engine's flag is set after the evaluation.
\<close>

lemma TailPhase_outcomes:
  assumes "stop \<noteq> Some True" "jsRule \<noteq> []" "m_jsEngine st = Some e"
  shows "TailPhase J jsRule stop baseResult vals st =
    (0, vals @ map degrade (zip baseResult (outcomes J jsRule baseResult e)),
     st\<lparr>m_jsEngine := Some (case outcomes J jsRule baseResult e of [] \<Rightarrow> e
                               | ocs \<Rightarrow> snd (last ocs)),
        m_lastError_lrp := (case filter failed (outcomes J jsRule baseResult e) of
                              [] \<Rightarrow> m_lastError_lrp st
                            | fs \<Rightarrow> m_lastError (snd (last fs))),
        m_hasError_lrp := (m_hasError_lrp st \<or> list_ex failed (outcomes J jsRule baseResult e))\<rparr>)"
  using assms(2,3)
  by (simp add: TailPhase_def TailLoop_outcomes [OF assms(1)])

lemma doubling_outcomes:
  "outcomes doubling_vm ''result+result'' [''A'', ''B'']
     \<lparr>m_context = Some [], m_lastError = [], m_hasError = False\<rparr>
   = [(''AA'', \<lparr>m_context = Some ''A'', m_lastError = [], m_hasError = False\<rparr>),
      ([], \<lparr>m_context = Some ''B'', m_lastError = ''JS Error: boom'', m_hasError = True\<rparr>)]"
  by (simp add: eval_def setResult_def result_assignment_def escape_char_def clearError_def
      setError_def doubling_vm_def dq_def)







lemma literal_plain:
  "c \<noteq> CHR 0x5C \<Longrightarrow> c \<noteq> dq \<Longrightarrow> c \<noteq> CHR 0x0A \<Longrightarrow> c \<noteq> CHR 0x0D \<Longrightarrow>
   js_literal_value (c # cs) = map_option ((#) c) (js_literal_value cs)"
  by simp










text \<open>
  The outcome of the assignment is not looked at. When the machine refuses the
  assignment for an item, as QuickJS does for a literal that is not UTF-8, the
  evaluation of the tail clears the engine's error and the tail runs on the
  \<^verbatim>\<open>result\<close> of the item before: the second node is replaced by the
  transform of the first, and no error is reported.
\<close>

lemma ParseRule_stale_result:
  "ParseRule odd_nodes utf8_vm ''doc'' ''//x@js:result+result'' [] None (new_parser [])
   = (0, [''AA'', ''AA''],
      \<lparr>m_jsEngine = Some \<lparr>m_context = Some ''A'', m_lastError = [], m_hasError = False\<rparr>,
       m_lastError_lrp = [], m_hasError_lrp = False\<rparr>)"
proof -
  have s: "SplitRule ''//x@js:result+result'' = (''//x'', ''result+result'')"
    by (simp add: SplitRule_def str_find_def substr_def substr_from_def)
  have b: "BasePhase odd_nodes utf8_vm ''doc'' ''//x'' None (new_parser [])
             = (0, [''A'', [CHR 0xFF]], new_parser [])"
    by (simp add: BasePhase_def starts_with_def str_find_def ParseXPathRule_def odd_nodes_def)
  have n: "(new_parser ([] :: string))\<lparr>m_hasError_lrp := False, m_lastError_lrp := []\<rparr> = new_parser []"
    by (simp add: new_parser_def)
  have t: "TailPhase utf8_vm ''result+result'' None [''A'', [CHR 0xFF]] [] (new_parser [])
     = (0, [''AA'', ''AA''],
      \<lparr>m_jsEngine = Some \<lparr>m_context = Some ''A'', m_lastError = [], m_hasError = False\<rparr>,
       m_lastError_lrp = [], m_hasError_lrp = False\<rparr>)"
    by (simp add: TailPhase_def new_parser_def eval_def setResult_def result_assignment_def
        escape_char_def clearError_def setError_def utf8_vm_def dq_def)
  show ?thesis
    by (simp add: ParseRule_def s n b t)
qed

text \<open>
  The same run through the whole of \<open>ParseRule\<close>: two base results, a tail
  that throws on the second.
\<close>

lemma TailPhase_doubling_run:
  "TailPhase doubling_vm ''result+result'' None [''A'', ''B''] [] (new_parser [])
   = (0, [''AA'', ''B''],
      \<lparr>m_jsEngine = Some \<lparr>m_context = Some ''B'', m_lastError = ''JS Error: boom'',
                           m_hasError = True\<rparr>,
       m_lastError_lrp = ''JS Error: boom'', m_hasError_lrp = True\<rparr>)"
  by (simp add: TailPhase_def new_parser_def TailLoop_outcomes doubling_outcomes degrade_def
      failed_def del: outcomes.simps TailLoop.simps)

lemma ParseRule_degrade_example:
  "ParseRule two_nodes doubling_vm ''doc'' ''//x@js:result+result'' [] None (new_parser [])
   = (0, [''AA'', ''B''],
      \<lparr>m_jsEngine = Some \<lparr>m_context = Some ''B'', m_lastError = ''JS Error: boom'',
                           m_hasError = True\<rparr>,
       m_lastError_lrp = ''JS Error: boom'', m_hasError_lrp = True\<rparr>)"
proof -
  have s: "SplitRule ''//x@js:result+result'' = (''//x'', ''result+result'')"
    by (simp add: SplitRule_def str_find_def substr_def substr_from_def)
  have b: "BasePhase two_nodes doubling_vm ''doc'' ''//x'' None (new_parser [])
             = (0, [''A'', ''B''], new_parser [])"
    by (simp add: BasePhase_def starts_with_def str_find_def ParseXPathRule_def two_nodes_def)
  have n: "(new_parser ([] :: string))\<lparr>m_hasError_lrp := False, m_lastError_lrp := []\<rparr> = new_parser []"
    by (simp add: new_parser_def)
  show ?thesis
    by (simp add: ParseRule_def s n b TailPhase_doubling_run)
qed

text \<open>
  C5. When the base phase returns a code other than zero, \<open>ParseRule\<close> returns
  that code; the output vector is the one it was given, so none of the base
  results reaches it; and the parser, with its engine, is as the base phase left
  it, so the tail was not evaluated.
\<close>

theorem C5_base_failure_is_fatal:
  assumes "rule \<noteq> []"
    "BasePhase X J html (fst (SplitRule rule)) stop
       (st0\<lparr>m_hasError_lrp := False, m_lastError_lrp := []\<rparr>) = (ret, baseResult, st1)"
    "ret \<noteq> 0"
  shows "ParseRule X J html rule vals stop st0 = (ret, vals, st1)"
proof -
  obtain baseRule jsRule where s: "SplitRule rule = (baseRule, jsRule)"
    by (cases "SplitRule rule")
  with assms(2) have "BasePhase X J html baseRule stop
       (st0\<lparr>m_hasError_lrp := False, m_lastError_lrp := []\<rparr>) = (ret, baseResult, st1)"
    by simp
  with assms(1,3) s show ?thesis
    by (simp add: ParseRule_def)
qed

theorem C5_base_failure_is_fatal_witness:
  "BasePhase broken_xpath logging_vm ''doc'' (fst (SplitRule ''//x@js:result+result'')) None
     ((new_parser [])\<lparr>m_hasError_lrp := False, m_lastError_lrp := []\<rparr>)
     = (1, [''partial''], new_parser [])
   \<and> ParseRule broken_xpath logging_vm ''doc'' ''//x@js:result+result'' [] None (new_parser [])
     = (1, [], new_parser [])"
proof -
  have s: "SplitRule ''//x@js:result+result'' = (''//x'', ''result+result'')"
    by (simp add: SplitRule_def str_find_def substr_def substr_from_def)
  have n: "(new_parser ([] :: string list))\<lparr>m_hasError_lrp := False, m_lastError_lrp := []\<rparr>
             = new_parser []"
    by (simp add: new_parser_def)
  have b: "BasePhase broken_xpath logging_vm ''doc'' (fst (SplitRule ''//x@js:result+result'')) None
     ((new_parser [])\<lparr>m_hasError_lrp := False, m_lastError_lrp := []\<rparr>)
     = (1, [''partial''], new_parser [])"
    by (simp add: s n BasePhase_def starts_with_def str_find_def ParseXPathRule_def broken_xpath_def)
  have r: "''//x@js:result+result'' \<noteq> []" "(1 :: int) \<noteq> 0" by simp_all
  show ?thesis
    using C5_base_failure_is_fatal [OF r(1) b r(2), of "[]"] b by simp
qed

text \<open>
  C6, as stated, fails on the empty rule: \<open>ParseRule\<close> returns at once, before
  the rule is split, and the output stays empty although the base part of the
  empty rule is empty.
\<close>

theorem C6_empty_rule_gives_nothing:
  "fst (SplitRule []) = []
   \<and> ParseRule two_nodes logging_vm ''doc'' [] [] None (new_parser []) = (0, [], new_parser [])"
  by (simp add: SplitRule_def str_find_def ParseRule_def new_parser_def)

text \<open>
  C6, amended. For a rule that is not empty and whose base part is empty, the
  base result is the content alone, and the tail phase starts from it. For the
  empty rule \<open>ParseRule\<close> succeeds and leaves the output as it was.
\<close>

theorem C6_empty_base_is_content:
  "(rule \<noteq> [] \<and> fst (SplitRule rule) = [] \<longrightarrow>
      BasePhase X J html (fst (SplitRule rule)) stop st = (0, [html], st)
      \<and> ParseRule X J html rule vals stop st0
          = TailPhase J (snd (SplitRule rule)) stop [html] vals
              (st0\<lparr>m_hasError_lrp := False, m_lastError_lrp := []\<rparr>))
   \<and> ParseRule X J html [] vals stop st0
       = (0, vals, st0\<lparr>m_hasError_lrp := False, m_lastError_lrp := []\<rparr>)"
proof -
  obtain baseRule jsRule where s: "SplitRule rule = (baseRule, jsRule)"
    by (cases "SplitRule rule")
  show ?thesis
    by (simp add: ParseRule_def BasePhase_def s)
qed

theorem C6_empty_base_is_content_witness:
  "fst (SplitRule ''@js:result+result'') = []
   \<and> BasePhase two_nodes doubling_vm ''A'' (fst (SplitRule ''@js:result+result'')) None (new_parser [])
       = (0, [''A''], new_parser [])
   \<and> ParseRule two_nodes doubling_vm ''A'' ''@js:result+result'' [] None (new_parser [])
       = TailPhase doubling_vm ''result+result'' None [''A''] []
           ((new_parser [])\<lparr>m_hasError_lrp := False, m_lastError_lrp := []\<rparr>)"
proof -
  have s: "SplitRule ''@js:result+result'' = ([], ''result+result'')"
    by (simp add: SplitRule_def str_find_def substr_def substr_from_def)
  show ?thesis
    using C6_empty_base_is_content
      [of "''@js:result+result''" two_nodes doubling_vm "''A''" None "new_parser []" "[]" "new_parser []"]
    by (simp add: s)
qed

text \<open>
  The prefixes \<open>ParseRule\<close> sends to the XPath engine directly: \<open>//\<close>, with the
  whole base as the XPath, and \<open>@XPath:\<close> in exactly this spelling, with the
  rest of the base as the XPath.
\<close>

lemma BasePhase_slashes:
  assumes "prefix ''//'' base"
  shows "BasePhase X J html base stop st
           = (fst (X html base stop []), snd (X html base stop []), st)"
proof -
  from assms obtain t where b: "base = ''//'' @ t" by (auto simp: prefix_def)
  show ?thesis
    unfolding b
    by (simp add: BasePhase_def starts_with_def str_find_def ParseXPathRule_def split: prod.splits)
qed

lemma BasePhase_XPath_prefix:
  assumes "prefix ''@XPath:'' base"
  shows "BasePhase X J html base stop st
           = (fst (X html (drop 7 base) stop []), snd (X html (drop 7 base) stop []), st)"
proof -
  from assms obtain t where b: "base = ''@XPath:'' @ t" by (auto simp: prefix_def)
  show ?thesis
    unfolding b
    by (simp add: BasePhase_def starts_with_def str_find_def ParseXPathRule_def substr_from_def
        split: prod.splits)
qed

text \<open>
  C7. A base that starts with the lower-case \<open>@xpath:\<close> matches none of the
  prefixes of \<open>ParseRule\<close>: it is translated by \<open>CssToXPath\<close> as a default
  rule, and the XPath engine is given \<open>//@xpath://div\<close>, not the body \<open>//div\<close>.
  \<open>is_xpath_rule\<close> of the converter accepts the same base, and the converter
  takes \<open>//div\<close> as its body.
\<close>

theorem C7_lowercase_xpath_prefix:
  "BasePhase X J html ''@xpath://div'' stop st
     = (fst (X html ''//@xpath://div'' stop []), snd (X html ''//@xpath://div'' stop []), st)
   \<and> CssToXPath ''@xpath://div'' = ''//@xpath://div''
   \<and> is_xpath_rule ''@xpath://div''
   \<and> xpath_rule_body ''@xpath://div'' = ''//div''"
proof -
  have c: "CssToXPath ''@xpath://div'' = ''//@xpath://div''" by code_simp
  have b: "BasePhase X J html ''@xpath://div'' stop st
     = (fst (X html ''//@xpath://div'' stop []), snd (X html ''//@xpath://div'' stop []), st)"
    by (simp add: BasePhase_def starts_with_def str_find_def ParseXPathRule_def c split: prod.splits)
  have i: "is_xpath_rule ''@xpath://div''" "xpath_rule_body ''@xpath://div'' = ''//div''"
    by (simp_all add: is_xpath_rule_def xpath_rule_body_def strncmp_eq_def)
  show ?thesis using b c i by simp
qed

section \<open>The digest functions of the bridge\<close>

lemma hex_digit_lower: "d < 16 \<Longrightarrow> hex_lower (hex_digit d)"
proof -
  assume "d < 16"
  then have "d = 0 \<or> d = 1 \<or> d = 2 \<or> d = 3 \<or> d = 4 \<or> d = 5 \<or> d = 6 \<or> d = 7 \<or> d = 8
      \<or> d = 9 \<or> d = 10 \<or> d = 11 \<or> d = 12 \<or> d = 13 \<or> d = 14 \<or> d = 15"
    by arith
  then show ?thesis by (auto simp: hex_digit_def hex_lower_def)
qed

lemma hex_digits_byte:
  assumes "n < 256"
  shows "length (hex_digits n) \<le> 2 \<and> hex_digits n \<noteq> [] \<and> list_all hex_lower (hex_digits n)"
proof (cases "n < 16")
  case True
  then show ?thesis by (simp add: hex_digits.simps hex_digit_lower)
next
  case False
  with assms have "n div 16 < 16" "n mod 16 < 16" by simp_all
  with False show ?thesis
    by (simp add: hex_digits.simps [of n] hex_digits.simps [of "n div 16"] hex_digit_lower)
qed

lemma hex_w2_byte:
  assumes "n < 256"
  shows "length (hex_w2 n) = 2 \<and> list_all hex_lower (hex_w2 n)"
proof -
  have "hex_lower (CHR ''0'')" by (simp add: hex_lower_def)
  then show ?thesis
    using hex_digits_byte [OF assms] by (auto simp: hex_w2_def list_all_iff)
qed

lemma low_byte: "unat ((w :: 32 word) AND 0xff) < 256"
proof -
  have "w AND 0xff \<le> 0xff" by (rule word_and_le1)
  then have "unat (w AND 0xff) \<le> unat (0xff :: 32 word)" by (simp add: word_le_nat_alt)
  then show ?thesis by simp
qed

lemma word_hex:
  "length (concat (map (\<lambda>k. hex_w2 (unat (drop_bit (k * 8) (w :: 32 word) AND 0xff))) [0..<4])) = 8
   \<and> list_all hex_lower (concat (map (\<lambda>k. hex_w2 (unat (drop_bit (k * 8) w AND 0xff))) [0..<4]))"
proof -
  have u: "[0..<4] = [0, 1, 2, 3 :: nat]" by (simp add: upt_rec)
  show ?thesis
    unfolding u using hex_w2_byte [OF low_byte] by simp
qed

lemma state_hex_four:
  "length (state_hex [s0, s1, s2, s3]) = 32 \<and> list_all hex_lower (state_hex [s0, s1, s2, s3])"
  using word_hex [of s0] word_hex [of s1] word_hex [of s2] word_hex [of s3]
  by (simp add: state_hex_def)

lemma md5_encode_shape: "\<exists>s0 s1 s2 s3. md5_encode input = state_hex [s0, s1, s2, s3]"
  unfolding md5_encode_def Let_def by (simp split: prod.splits) blast

lemma md5_encode_format:
  "length (md5_encode input) = 32 \<and> list_all hex_lower (md5_encode input)"
  using md5_encode_shape [of input] state_hex_four by auto

lemma hex_lower_not_zero: "hex_lower c \<Longrightarrow> c \<noteq> CHR 0x00"
  unfolding hex_lower_def by auto

lemma c_str_hex: "list_all hex_lower s \<Longrightarrow> c_str s = s"
  unfolding c_str_def by (induction s) (simp_all add: hex_lower_not_zero)

lemma md5_hash_format:
  "md5_hash D input = [] \<or> (length (md5_hash D input) = 32 \<and> list_all hex_lower (md5_hash D input))"
proof (cases "D input")
  case None
  then show ?thesis by (simp add: md5_hash_def)
next
  case (Some digest)
  have b: "\<And>i. unat (digest i) < 256"
  proof -
    fix i
    have "unat (digest i) < 2 ^ LENGTH(8)" by (rule unsigned_less)
    then show "unat (digest i) < 256" by simp
  qed
  have u: "[0..<16] = [0, 1, 2, 3, 4, 5, 6, 7, 8, 9, 10, 11, 12, 13, 14, 15 :: nat]"
    by (simp add: upt_rec)
  have h: "length (concat (map (\<lambda>i. hex_w2 (unat (digest i))) [0..<16])) = 32
           \<and> list_all hex_lower (concat (map (\<lambda>i. hex_w2 (unat (digest i))) [0..<16]))"
    unfolding u using hex_w2_byte [OF b] by simp
  then show ?thesis
    using Some c_str_hex [of "concat (map (\<lambda>i. hex_w2 (unat (digest i))) [0..<16])"]
    by (simp add: md5_hash_def)
qed

text \<open>
  C10. In both engines \<open>md5Encode16\<close> of an argument is the sixteen characters
  from offset 8 of \<open>md5Encode\<close> of the same argument. For the engine whose
  digest is in the sources, \<open>md5Encode\<close> of a string is thirty-two lower-case
  hexadecimal digits, so \<open>substr(8, 16)\<close> never throws and the result is the
  middle sixteen digits.
\<close>

theorem C10_md5Encode16_is_middle_of_md5Encode:
  "js_java_md5Encode16 arg = Returned (take 16 (drop 8 (js_java_md5Encode arg)))
   \<and> length (js_java_md5Encode (Some s)) = 32
   \<and> list_all hex_lower (js_java_md5Encode (Some s))
   \<and> js_md5Encode16 D arg = take 16 (drop 8 (js_md5Encode D arg))"
proof -
  have f: "\<And>x. length (md5_encode x) = 32" "\<And>x. list_all hex_lower (md5_encode x)"
    using md5_encode_format by simp_all
  have c: "\<And>x. c_str (md5_encode x) = md5_encode x"
    using c_str_hex f(2) by simp
  have t: "\<And>x. list_all hex_lower (take 16 (drop 8 (md5_encode x)))"
    using f(2) by (auto simp: list_all_iff dest: in_set_takeD in_set_dropD)
  have 1: "js_java_md5Encode16 arg = Returned (take 16 (drop 8 (js_java_md5Encode arg)))"
    using f(1) c c_str_hex [OF t]
    by (cases arg) (simp_all add: js_java_md5Encode16_def js_java_md5Encode_def substr_checked_def)
  have 2: "length (js_java_md5Encode (Some s)) = 32" "list_all hex_lower (js_java_md5Encode (Some s))"
    using f c by (simp_all add: js_java_md5Encode_def)
  have 3: "js_md5Encode16 D arg = take 16 (drop 8 (js_md5Encode D arg))"
  proof (cases arg)
    case None
    then show ?thesis by (simp add: js_md5Encode16_def js_md5Encode_def)
  next
    case (Some str)
    show ?thesis
      using md5_hash_format [of D "c_str str"]
    proof
      assume "md5_hash D (c_str str) = []"
      with Some show ?thesis by (simp add: js_md5Encode16_def js_md5Encode_def c_str_def)
    next
      assume h: "length (md5_hash D (c_str str)) = 32 \<and> list_all hex_lower (md5_hash D (c_str str))"
      then have "list_all hex_lower (take 16 (drop 8 (md5_hash D (c_str str))))"
        by (auto simp: list_all_iff dest: in_set_takeD in_set_dropD)
      with h Some show ?thesis
        by (simp add: js_md5Encode16_def js_md5Encode_def substr_def c_str_hex)
    qed
  qed
  show ?thesis using 1 2 3 by simp
qed

section \<open>The template expanders against section 4.5\<close>

lemma str_find_drop:
  "pos \<le> length t \<Longrightarrow> str_find t pat pos = map_option ((+) pos) (find_first pat (drop pos t))"
  by (simp add: str_find_def)

lemma find_close_after_open:
  "find_first ''}}'' (''{{'' @ body) = map_option ((+) 2) (find_first ''}}'' body)"
  by (cases "find_first ''}}'' body") simp_all

lemma find_first_split:
  assumes "find_first pat s = Some a"
  shows "drop a s = pat @ drop (a + length pat) s"
proof -
  from find_first_prefix [OF assms] obtain r where r: "drop a s = pat @ r"
    by (auto simp: prefix_def)
  then have "drop (length pat) (drop a s) = r" by simp
  then have "drop (a + length pat) s = r" by (simp add: add.commute)
  with r show ?thesis by simp
qed

lemma spec_expand_no_open: "\<not> occurs ''{{'' s \<Longrightarrow> spec_expand ev s e = (s, e)"
  by (simp add: spec_expand.simps [of ev s e])

lemma spec_expand_no_close:
  "\<not> occurs ''}}'' (drop (first_at ''{{'' s + 2) s) \<Longrightarrow> spec_expand ev s e = (s, e)"
  by (simp add: spec_expand.simps [of ev s e])

lemma spec_expand_step:
  assumes "occurs ''{{'' s" "occurs ''}}'' (drop (first_at ''{{'' s + 2) s)"
    "ev (take (first_at ''}}'' (drop (first_at ''{{'' s + 2) s)) (drop (first_at ''{{'' s + 2) s)) e
       = (v, e1)"
  shows "spec_expand ev s e =
           (take (first_at ''{{'' s) s @ v
              @ fst (spec_expand ev (drop (first_at ''}}'' (drop (first_at ''{{'' s + 2) s) + 2)
                                          (drop (first_at ''{{'' s + 2) s)) e1),
            snd (spec_expand ev (drop (first_at ''}}'' (drop (first_at ''{{'' s + 2) s) + 2)
                                      (drop (first_at ''{{'' s + 2) s)) e1))"
  using assms by (simp add: spec_expand.simps [of ev s e] split: prod.splits)

lemma processTemplate_loop_refines:
  "pos \<le> length t \<Longrightarrow>
   processTemplate_loop J t pos result e
     = (result @ fst (spec_expand (eval J) (drop pos t) e),
        snd (spec_expand (eval J) (drop pos t) e))"
proof (induction "length t - pos" arbitrary: pos result e rule: less_induct)
  case less
  define s where "s = drop pos t"
  show ?case
  proof (cases "pos < length t")
    case False
    with less.prems have "drop pos t = []" by simp
    with False show ?thesis
      by (simp add: processTemplate_loop.simps [of J t pos] spec_expand_no_open occurs_Nil)
  next
    case True
    have sf: "str_find t ''{{'' pos = map_option ((+) pos) (find_first ''{{'' s)"
      unfolding s_def using less.prems by (rule str_find_drop)
    show ?thesis
    proof (cases "find_first ''{{'' s")
      case None
      then have "spec_expand (eval J) s e = (s, e)"
        by (simp add: spec_expand_no_open find_first_None [symmetric])
      with None True sf show ?thesis
        by (simp add: processTemplate_loop.simps [of J t pos] substr_from_def s_def)
    next
      case (Some a)
      have a: "a = first_at ''{{'' s" and oa: "occurs ''{{'' s"
        using find_first_Some [OF Some] find_first_None [of "''{{''" s] Some by simp_all
      define body where "body = drop (a + 2) s"
      have split: "drop a s = ''{{'' @ body"
        using find_first_split [OF Some] by (simp add: body_def)
      have bound: "pos + a + 2 \<le> length t"
        using find_first_bound [OF Some] by (simp add: s_def)
      have start: "str_find t ''{{'' pos = Some (pos + a)" using sf Some by simp
      have dstart: "drop (pos + a) t = ''{{'' @ body"
        using split by (simp add: s_def add.commute)
      have sf2: "str_find t ''}}'' (pos + a) = map_option ((+) (pos + a + 2)) (find_first ''}}'' body)"
      proof -
        have "pos + a \<le> length t" using bound by simp
        then have "str_find t ''}}'' (pos + a)
                     = map_option ((+) (pos + a)) (find_first ''}}'' (drop (pos + a) t))"
          by (rule str_find_drop)
        then show ?thesis
          unfolding dstart find_close_after_open
          by (cases "find_first ''}}'' body") simp_all
      qed
      have pre: "substr t pos (size_sub (pos + a) pos) = take a s"
        by (simp add: substr_def size_sub_def s_def)
      show ?thesis
      proof (cases "find_first ''}}'' body")
        case None
        then have "\<not> occurs ''}}'' (drop (first_at ''{{'' s + 2) s)"
          using a by (simp add: find_first_None body_def)
        then have sp: "spec_expand (eval J) s e = (s, e)" by (rule spec_expand_no_close)
        have "take a s @ drop a s = s" by simp
        then have "take a s @ substr_from t (pos + a) = s"
          by (simp add: substr_from_def s_def add.commute)
        with None True start sf2 pre sp show ?thesis
          by (simp add: processTemplate_loop.simps [of J t pos] s_def)
      next
        case S2: (Some b)
        have b: "b = first_at ''}}'' body" and ob: "occurs ''}}'' body"
          using find_first_Some [OF S2] find_first_None [of "''}}''" body] S2 by simp_all
        have bb: "b + 2 \<le> length body" using find_first_bound [OF S2] by simp
        have endp: "str_find t ''}}'' (pos + a) = Some (pos + a + 2 + b)" using sf2 S2 by simp
        have lb: "length body = length t - (pos + a + 2)" by (simp add: body_def s_def)
        have bound2: "pos + a + 2 + b + 2 \<le> length t" using bb lb bound by linarith
        have dbody: "drop (pos + a + 2) t = body"
          by (simp add: body_def s_def add.commute add.left_commute)
        have expr: "substr t (pos + a + 2) (size_sub (size_sub (pos + a + 2 + b) (pos + a)) 2)
                      = take b body"
        proof -
          have "size_sub (size_sub (pos + a + 2 + b) (pos + a)) 2 = b"
            by (simp add: size_sub_def)
          then show ?thesis by (simp only: substr_def dbody)
        qed
        obtain v e1 where ev: "eval J (take b body) e = (v, e1)"
          by (cases "eval J (take b body) e")
        have rest: "drop (pos + a + 2 + b + 2) t = drop (b + 2) body"
          unfolding dbody [symmetric] by (simp add: add.commute add.left_commute)
        have IH: "processTemplate_loop J t (pos + a + 2 + b + 2) (result @ take a s @ v) e1
                    = ((result @ take a s @ v) @ fst (spec_expand (eval J) (drop (b + 2) body) e1),
                       snd (spec_expand (eval J) (drop (b + 2) body) e1))"
        proof -
          have lt: "length t - (pos + a + 2 + b + 2) < length t - pos" using True by arith
          note IH0 = less.hyps [OF lt bound2, of "result @ take a s @ v" e1]
          show ?thesis using IH0 unfolding rest .
        qed
        have sp: "spec_expand (eval J) s e
                    = (take a s @ v @ fst (spec_expand (eval J) (drop (b + 2) body) e1),
                       snd (spec_expand (eval J) (drop (b + 2) body) e1))"
          using spec_expand_step [of s "eval J" e v e1] oa ob ev a b
          by (simp add: body_def)
        show ?thesis
          using True start endp pre expr ev IH sp
          by (simp add: processTemplate_loop.simps [of J t pos] s_def)
      qed
    qed
  qed
qed

lemma processTemplate_refines: "processTemplate J t e = spec_expand (eval J) t e"
  using processTemplate_loop_refines [of 0 t J "[]" e] by (simp add: processTemplate_def)

lemma EvaluateTemplate_loop_refines:
  "pos \<le> length t \<Longrightarrow>
   EvaluateTemplate_loop J t pos outp e
     = (outp @ fst (spec_expand (evaluate_or_keep J) (drop pos t) e),
        snd (spec_expand (evaluate_or_keep J) (drop pos t) e))"
proof (induction "length t - pos" arbitrary: pos outp e rule: less_induct)
  case less
  define s where "s = drop pos t"
  show ?case
  proof (cases "pos < length t")
    case False
    with less.prems have "drop pos t = []" by simp
    with False show ?thesis
      by (simp add: EvaluateTemplate_loop.simps [of J t pos] spec_expand_no_open occurs_Nil)
  next
    case True
    have sf: "str_find t ''{{'' pos = map_option ((+) pos) (find_first ''{{'' s)"
      unfolding s_def using less.prems by (rule str_find_drop)
    show ?thesis
    proof (cases "find_first ''{{'' s")
      case None
      then have "spec_expand (evaluate_or_keep J) s e = (s, e)"
        by (simp add: spec_expand_no_open find_first_None [symmetric])
      with None True sf show ?thesis
        by (simp add: EvaluateTemplate_loop.simps [of J t pos] substr_from_def s_def)
    next
      case (Some a)
      have a: "a = first_at ''{{'' s" and oa: "occurs ''{{'' s"
        using find_first_Some [OF Some] find_first_None [of "''{{''" s] Some by simp_all
      define body where "body = drop (a + 2) s"
      have bound: "pos + a + 2 \<le> length t"
        using find_first_bound [OF Some] by (simp add: s_def)
      have start: "str_find t ''{{'' pos = Some (pos + a)" using sf Some by simp
      have dbody: "drop (pos + a + 2) t = body"
        by (simp add: body_def s_def add.commute add.left_commute)
      have sf2: "str_find t ''}}'' (pos + a + 2)
                   = map_option ((+) (pos + a + 2)) (find_first ''}}'' body)"
        using str_find_drop [OF bound, of "''}}''"] unfolding dbody .
      have pre: "substr t pos (size_sub (pos + a) pos) = take a s"
        by (simp add: substr_def size_sub_def s_def)
      show ?thesis
      proof (cases "find_first ''}}'' body")
        case None
        then have "\<not> occurs ''}}'' (drop (first_at ''{{'' s + 2) s)"
          using a by (simp add: find_first_None body_def)
        then have sp: "spec_expand (evaluate_or_keep J) s e = (s, e)"
          by (rule spec_expand_no_close)
        have "take a s @ drop a s = s" by simp
        then have "take a s @ substr_from t (pos + a) = s"
          by (simp add: substr_from_def s_def add.commute)
        with None True start sf2 pre sp show ?thesis
          by (simp add: EvaluateTemplate_loop.simps [of J t pos] s_def)
      next
        case S2: (Some b)
        have b: "b = first_at ''}}'' body" and ob: "occurs ''}}'' body"
          using find_first_Some [OF S2] find_first_None [of "''}}''" body] S2 by simp_all
        have bb: "b + 2 \<le> length body" using find_first_bound [OF S2] by simp
        have endp: "str_find t ''}}'' (pos + a + 2) = Some (pos + a + 2 + b)" using sf2 S2 by simp
        have lb: "length body = length t - (pos + a + 2)" by (simp add: body_def s_def)
        have bound2: "pos + a + 2 + b + 2 \<le> length t" using bb lb bound by linarith
        have expr: "substr t (pos + a + 2) (size_sub (size_sub (pos + a + 2 + b) (pos + a)) 2)
                      = take b body"
        proof -
          have "size_sub (size_sub (pos + a + 2 + b) (pos + a)) 2 = b"
            by (simp add: size_sub_def)
          then show ?thesis by (simp only: substr_def dbody)
        qed
        obtain v e1 where ev: "evaluate_or_keep J (take b body) e = (v, e1)"
          by (cases "evaluate_or_keep J (take b body) e")
        have rest: "drop (pos + a + 2 + b + 2) t = drop (b + 2) body"
          unfolding dbody [symmetric] by (simp add: add.commute add.left_commute)
        have IH: "EvaluateTemplate_loop J t (pos + a + 2 + b + 2) (outp @ take a s @ v) e1
                    = ((outp @ take a s @ v)
                         @ fst (spec_expand (evaluate_or_keep J) (drop (b + 2) body) e1),
                       snd (spec_expand (evaluate_or_keep J) (drop (b + 2) body) e1))"
        proof -
          have lt: "length t - (pos + a + 2 + b + 2) < length t - pos" using True by arith
          note IH0 = less.hyps [OF lt bound2, of "outp @ take a s @ v" e1]
          show ?thesis using IH0 unfolding rest .
        qed
        have sp: "spec_expand (evaluate_or_keep J) s e
                    = (take a s @ v @ fst (spec_expand (evaluate_or_keep J) (drop (b + 2) body) e1),
                       snd (spec_expand (evaluate_or_keep J) (drop (b + 2) body) e1))"
          using spec_expand_step [of s "evaluate_or_keep J" e v e1] oa ob ev a b
          by (simp add: body_def)
        have step: "EvaluateTemplate_loop J t pos outp e
                      = EvaluateTemplate_loop J t (pos + a + 2 + b + 2) (outp @ take a s @ v) e1"
        proof (cases "starts_with (take b body) ''@css:'' \<or> starts_with (take b body) ''@XPath:''")
          case G: True
          with ev have "v = ''{{'' @ take b body @ ''}}''" "e1 = e"
            by (simp_all add: evaluate_or_keep_def)
          with G True start endp pre expr show ?thesis
            by (simp add: EvaluateTemplate_loop.simps [of J t pos] Let_def)
        next
          case G: False
          with ev have "evaluate J (take b body) e = (v, e1)"
            by (simp add: evaluate_or_keep_def)
          with G True start endp pre expr show ?thesis
            by (simp add: EvaluateTemplate_loop.simps [of J t pos] Let_def)
        qed
        show ?thesis
          unfolding step IH sp s_def [symmetric] by simp
      qed
    qed
  qed
qed

lemma EvaluateTemplate_refines:
  assumes "m_engine p = Some e0" "m_initialized p"
  shows "EvaluateTemplate J S t result baseUrl p
     = (fst (spec_expand (evaluate_or_keep J) t
               (case baseUrl of Some u \<Rightarrow> setVariable S ''baseUrl'' u (setVariable S ''result'' result e0)
                | None \<Rightarrow> setVariable S ''result'' result e0)),
        p\<lparr>m_engine := Some (snd (spec_expand (evaluate_or_keep J) t
               (case baseUrl of Some u \<Rightarrow> setVariable S ''baseUrl'' u (setVariable S ''result'' result e0)
                | None \<Rightarrow> setVariable S ''result'' result e0)))\<rparr>)"
  using assms EvaluateTemplate_loop_refines [of 0 t J "[]"]
  by (simp add: EvaluateTemplate_def Let_def split: prod.splits)

lemma EvaluateTemplate_no_open:
  assumes "\<not> occurs ''{{'' t"
  shows "fst (EvaluateTemplate J S t result baseUrl p) = t"
proof (cases "m_engine p")
  case None
  then show ?thesis by (simp add: EvaluateTemplate_def)
next
  case (Some e0)
  show ?thesis
  proof (cases "m_initialized p")
    case False
    with Some show ?thesis by (simp add: EvaluateTemplate_def)
  next
    case True
    show ?thesis
      unfolding EvaluateTemplate_refines [OF Some True]
      by (simp add: spec_expand_no_open [OF assms])
  qed
qed

lemma EvaluateTemplate_no_close:
  assumes "\<not> occurs ''}}'' (drop (first_at ''{{'' t + 2) t)"
  shows "fst (EvaluateTemplate J S t result baseUrl p) = t"
proof (cases "m_engine p")
  case None
  then show ?thesis by (simp add: EvaluateTemplate_def)
next
  case (Some e0)
  show ?thesis
  proof (cases "m_initialized p")
    case False
    with Some show ?thesis by (simp add: EvaluateTemplate_def)
  next
    case True
    show ?thesis
      unfolding EvaluateTemplate_refines [OF Some True]
      by (simp add: spec_expand_no_close [OF assms])
  qed
qed

lemma sum_template_spec:
  "spec_expand ev ''a{{1+1}}b'' e = (''a'' @ fst (ev ''1+1'' e) @ ''b'', snd (ev ''1+1'' e))"
proof -
  have 1: "occurs ''{{'' ''a{{1+1}}b''" "first_at ''{{'' ''a{{1+1}}b'' = 1"
    by (simp_all add: occurs_def first_at_def)
  have 2: "occurs ''}}'' ''1+1}}b''" "first_at ''}}'' ''1+1}}b'' = 3"
    by (simp_all add: occurs_def first_at_def)
  have 3: "\<not> occurs ''{{'' ''b''" by (simp add: occurs_def)
  obtain v e1 where ev: "ev ''1+1'' e = (v, e1)" by (cases "ev ''1+1'' e")
  show ?thesis
    using spec_expand_step [of "''a{{1+1}}b''" ev e v e1] 1 2 ev spec_expand_no_open [OF 3, of ev e1]
    by simp
qed

lemma unterminated_example:
  "\<not> occurs ''}}'' (drop (first_at ''{{'' ''a{{x'' + 2) ''a{{x'')"
  by (simp add: occurs_def first_at_def)

text \<open>
  C8, as stated, fails on \<open>EvaluateTemplate\<close>: an expression that starts with
  \<^verbatim>\<open>@css:\<close> is not replaced by the engine's result for it, it stays in the
  output with its markers.
\<close>

theorem C8_selector_span_is_kept:
  "fst (EvaluateTemplate sum_vm no_globals ''{{@css:a}}'' [] None new_processor) = ''{{@css:a}}''
   \<and> fst (evaluate sum_vm ''@css:a'' new_JsEngine) = ''X''"
proof -
  have 1: "occurs ''{{'' ''{{@css:a}}''" "first_at ''{{'' ''{{@css:a}}'' = 0"
    by (simp_all add: occurs_def first_at_def)
  have 2: "occurs ''}}'' ''@css:a}}''" "first_at ''}}'' ''@css:a}}'' = 6"
    by (simp_all add: occurs_def first_at_def)
  have 3: "\<not> occurs ''{{'' []" by (simp add: occurs_def)
  have k: "evaluate_or_keep sum_vm ''@css:a'' e = (''{{@css:a}}'', e)" for e
    by (simp add: evaluate_or_keep_def starts_with_def str_find_def)
  have s: "spec_expand (evaluate_or_keep sum_vm) ''{{@css:a}}'' e = (''{{@css:a}}'', e)" for e
    using spec_expand_step [of "''{{@css:a}}''" "evaluate_or_keep sum_vm" e "''{{@css:a}}''" e]
      1 2 k spec_expand_no_open [OF 3, of "evaluate_or_keep sum_vm" e]
    by simp
  have p: "m_engine new_processor = Some new_JsEngine" "m_initialized new_processor"
    by (simp_all add: new_processor_def)
  have e: "fst (evaluate sum_vm ''@css:a'' new_JsEngine) = ''X''"
    by (simp add: evaluate_def new_JsEngine_def starts_with_def str_find_def sum_vm_def)
  show ?thesis
    unfolding EvaluateTemplate_refines [OF p] using e by (simp add: s)
qed

text \<open>
  C8, amended. \<open>processTemplate\<close> is the expander of section 4.5 with the
  engine's \<open>eval\<close> on every expression, in order from the left: a template
  without an opening marker comes back unchanged, and so does one whose first
  opening marker has no closing marker after it; with an engine that evaluates
  \<open>1+1\<close> to \<open>2\<close>, \<open>a{{1+1}}b\<close> becomes \<open>a2b\<close>. \<open>EvaluateTemplate\<close>, with
  an initialised engine and with or without a base URL, is the same expander
  over the engine in which \<^verbatim>\<open>result\<close> and the base URL have been set, except
  that an expression starting with \<^verbatim>\<open>@css:\<close> or \<^verbatim>\<open>@XPath:\<close> is copied with
  its markers and not evaluated; the processor keeps the engine the expansion
  leaves. Without an engine, or with one that is not initialised, it returns the
  template unchanged, whatever the template holds, and records the error. In
  every case it returns a template without an opening marker, or with an
  unclosed one, unchanged.
\<close>

theorem C8_template_expanders:
  "processTemplate J t e = spec_expand (eval J) t e
   \<and> (\<not> occurs ''{{'' t \<longrightarrow> processTemplate J t e = (t, e))
   \<and> (\<not> occurs ''}}'' (drop (first_at ''{{'' t + 2) t) \<longrightarrow> processTemplate J t e = (t, e))
   \<and> processTemplate sum_vm ''a{{1+1}}b'' new_engine = (''a2b'', new_engine)
   \<and> processTemplate J ''a{{x'' e = (''a{{x'', e)
   \<and> (m_engine p = Some e0 \<and> m_initialized p \<longrightarrow>
        EvaluateTemplate J S t result baseUrl p
          = (fst (spec_expand (evaluate_or_keep J) t
                   (case baseUrl of
                      Some u \<Rightarrow> setVariable S ''baseUrl'' u (setVariable S ''result'' result e0)
                    | None \<Rightarrow> setVariable S ''result'' result e0)),
             p\<lparr>m_engine := Some (snd (spec_expand (evaluate_or_keep J) t
                   (case baseUrl of
                      Some u \<Rightarrow> setVariable S ''baseUrl'' u (setVariable S ''result'' result e0)
                    | None \<Rightarrow> setVariable S ''result'' result e0)))\<rparr>))
   \<and> (m_engine p = Some e0 \<and> m_initialized p \<longrightarrow>
        fst (EvaluateTemplate J S t result None p)
          = fst (spec_expand (evaluate_or_keep J) t (setVariable S ''result'' result e0)))
   \<and> (m_engine p = None \<or> \<not> m_initialized p \<longrightarrow>
        EvaluateTemplate J S t result baseUrl p
          = (t, p\<lparr>m_lastError_jrp := ''JS engine not initialized''\<rparr>))
   \<and> (\<not> occurs ''{{'' t \<longrightarrow> fst (EvaluateTemplate J S t result baseUrl p) = t)
   \<and> (\<not> occurs ''}}'' (drop (first_at ''{{'' t + 2) t) \<longrightarrow>
        fst (EvaluateTemplate J S t result baseUrl p) = t)
   \<and> fst (EvaluateTemplate sum_vm no_globals ''a{{1+1}}b'' [] None new_processor) = ''a2b''
   \<and> fst (EvaluateTemplate J S ''a{{x'' result baseUrl p) = ''a{{x''"
proof -
  have r: "processTemplate J t e = spec_expand (eval J) t e" for J :: "'a js_eval" and t e
    by (rule processTemplate_refines)
  have 1: "\<not> occurs ''{{'' t \<longrightarrow> processTemplate J t e = (t, e)"
    by (simp add: r spec_expand_no_open)
  have 2: "\<not> occurs ''}}'' (drop (first_at ''{{'' t + 2) t) \<longrightarrow> processTemplate J t e = (t, e)"
    by (simp add: r spec_expand_no_close)
  have 3: "processTemplate sum_vm ''a{{1+1}}b'' new_engine = (''a2b'', new_engine)"
    unfolding processTemplate_refines sum_template_spec
    by (simp add: eval_def clearError_def new_engine_def sum_vm_def)
  have 4: "processTemplate J ''a{{x'' e = (''a{{x'', e)"
    unfolding processTemplate_refines by (rule spec_expand_no_close [OF unterminated_example])
  have 5: "m_engine p = Some e0 \<and> m_initialized p \<longrightarrow>
        EvaluateTemplate J S t result baseUrl p
          = (fst (spec_expand (evaluate_or_keep J) t
                   (case baseUrl of
                      Some u \<Rightarrow> setVariable S ''baseUrl'' u (setVariable S ''result'' result e0)
                    | None \<Rightarrow> setVariable S ''result'' result e0)),
             p\<lparr>m_engine := Some (snd (spec_expand (evaluate_or_keep J) t
                   (case baseUrl of
                      Some u \<Rightarrow> setVariable S ''baseUrl'' u (setVariable S ''result'' result e0)
                    | None \<Rightarrow> setVariable S ''result'' result e0)))\<rparr>)"
    using EvaluateTemplate_refines [of p e0 J S t result baseUrl] by blast
  have 6: "m_engine p = Some e0 \<and> m_initialized p \<longrightarrow>
        fst (EvaluateTemplate J S t result None p)
          = fst (spec_expand (evaluate_or_keep J) t (setVariable S ''result'' result e0))"
    using EvaluateTemplate_refines [of p e0 J S t result None] by simp
  have 7: "m_engine p = None \<or> \<not> m_initialized p \<longrightarrow>
        EvaluateTemplate J S t result baseUrl p
          = (t, p\<lparr>m_lastError_jrp := ''JS engine not initialized''\<rparr>)"
    by (simp add: EvaluateTemplate_def split: option.splits)
  have 8: "\<not> occurs ''{{'' t \<longrightarrow> fst (EvaluateTemplate J S t result baseUrl p) = t"
    using EvaluateTemplate_no_open by blast
  have 9: "\<not> occurs ''}}'' (drop (first_at ''{{'' t + 2) t) \<longrightarrow>
        fst (EvaluateTemplate J S t result baseUrl p) = t"
    using EvaluateTemplate_no_close by blast
  have p: "m_engine new_processor = Some new_JsEngine" "m_initialized new_processor"
    by (simp_all add: new_processor_def)
  have 10: "fst (EvaluateTemplate sum_vm no_globals ''a{{1+1}}b'' [] None new_processor) = ''a2b''"
    unfolding EvaluateTemplate_refines [OF p] sum_template_spec
    by (simp add: evaluate_or_keep_def evaluate_def starts_with_def str_find_def sum_vm_def
        setVariable_def new_JsEngine_def)
  have 11: "fst (EvaluateTemplate J S ''a{{x'' result baseUrl p) = ''a{{x''"
    by (rule EvaluateTemplate_no_close [OF unterminated_example])
  show ?thesis using r 1 2 3 4 5 6 7 8 9 10 11 by blast
qed

theorem C8_template_expanders_witness:
  "\<not> occurs ''{{'' ''https://example.com/search''
   \<and> processTemplate sum_vm ''https://example.com/search'' new_engine
       = (''https://example.com/search'', new_engine)
   \<and> \<not> occurs ''}}'' (drop (first_at ''{{'' ''a{{x'' + 2) ''a{{x'')
   \<and> fst (EvaluateTemplate sum_vm no_globals ''a{{x'' [] None new_processor) = ''a{{x''
   \<and> m_engine new_processor = Some new_JsEngine \<and> m_initialized new_processor
   \<and> fst (EvaluateTemplate sum_vm no_globals ''https://example.com/search'' [] None new_processor)
       = ''https://example.com/search''
   \<and> EvaluateTemplate sum_vm no_globals ''a{{1+1}}b'' ''r'' (Some ''http://h/'') new_processor
       = (''a2b'', new_processor)
   \<and> \<not> m_initialized (new_processor\<lparr>m_initialized := False\<rparr>)
   \<and> EvaluateTemplate sum_vm no_globals ''a{{1+1}}b'' [] None (new_processor\<lparr>m_initialized := False\<rparr>)
       = (''a{{1+1}}b'', new_processor\<lparr>m_initialized := False,
                                          m_lastError_jrp := ''JS engine not initialized''\<rparr>)"
proof -
  have 1: "\<not> occurs ''{{'' ''https://example.com/search''"
    by (simp add: occurs_def)
  have p: "m_engine new_processor = Some new_JsEngine" "m_initialized new_processor"
    by (simp_all add: new_processor_def)
  have q: "\<not> m_initialized (new_processor\<lparr>m_initialized := False\<rparr>)" by simp
  note T1 = C8_template_expanders [where J = sum_vm and t = "''https://example.com/search''"
      and e = new_engine and p = new_processor and ?e0.0 = new_JsEngine and S = no_globals
      and result = "[]" and baseUrl = None]
  note T2 = C8_template_expanders [where J = sum_vm and t = "''a{{x''"
      and e = new_engine and p = new_processor and ?e0.0 = new_JsEngine and S = no_globals
      and result = "[]" and baseUrl = None]
  note T3 = C8_template_expanders [where J = sum_vm and t = "''a{{1+1}}b''"
      and e = new_engine and p = new_processor and ?e0.0 = new_JsEngine and S = no_globals
      and result = "''r''" and baseUrl = "Some ''http://h/''"]
  note T4 = C8_template_expanders [where J = sum_vm and t = "''a{{1+1}}b''"
      and e = new_engine and p = "new_processor\<lparr>m_initialized := False\<rparr>"
      and ?e0.0 = new_JsEngine and S = no_globals and result = "[]" and baseUrl = None]
  have a: "processTemplate sum_vm ''https://example.com/search'' new_engine
             = (''https://example.com/search'', new_engine)"
    using T1 1 by blast
  have b: "fst (EvaluateTemplate sum_vm no_globals ''https://example.com/search'' [] None new_processor)
             = ''https://example.com/search''"
    using T1 1 by blast
  have c: "fst (EvaluateTemplate sum_vm no_globals ''a{{x'' [] None new_processor) = ''a{{x''"
    using T2 unterminated_example by blast
  have "EvaluateTemplate sum_vm no_globals ''a{{1+1}}b'' ''r'' (Some ''http://h/'') new_processor
          = (fst (spec_expand (evaluate_or_keep sum_vm) ''a{{1+1}}b''
                   (case Some ''http://h/'' of
                      Some u \<Rightarrow> setVariable no_globals ''baseUrl'' u
                                  (setVariable no_globals ''result'' ''r'' new_JsEngine)
                    | None \<Rightarrow> setVariable no_globals ''result'' ''r'' new_JsEngine)),
             new_processor\<lparr>m_engine := Some (snd (spec_expand (evaluate_or_keep sum_vm) ''a{{1+1}}b''
                   (case Some ''http://h/'' of
                      Some u \<Rightarrow> setVariable no_globals ''baseUrl'' u
                                  (setVariable no_globals ''result'' ''r'' new_JsEngine)
                    | None \<Rightarrow> setVariable no_globals ''result'' ''r'' new_JsEngine)))\<rparr>)"
    using T3 p by blast
  then have d: "EvaluateTemplate sum_vm no_globals ''a{{1+1}}b'' ''r'' (Some ''http://h/'') new_processor
          = (''a2b'', new_processor)"
    unfolding sum_template_spec
    by (simp add: evaluate_or_keep_def evaluate_def starts_with_def str_find_def sum_vm_def
        setVariable_def new_JsEngine_def no_globals_def new_processor_def)
  have f: "EvaluateTemplate sum_vm no_globals ''a{{1+1}}b'' [] None (new_processor\<lparr>m_initialized := False\<rparr>)
       = (''a{{1+1}}b'', new_processor\<lparr>m_initialized := False\<rparr>\<lparr>m_lastError_jrp := ''JS engine not initialized''\<rparr>)"
    using T4 q by blast
  show ?thesis
    using 1 p q a b c d f unterminated_example by simp
qed

section \<open>Further properties of the pipeline\<close>

text \<open>
  A rule without \<^verbatim>\<open>@js:\<close> and without \<^verbatim>\<open><js>\<close> has no tail, and \<open>ParseRule\<close>
  returns what its base phase found, unchanged: the output vector is replaced by
  the base results.
\<close>

theorem ParseRule_without_script:
  assumes "rule \<noteq> []" "\<not> occurs ''@js:'' rule" "\<not> occurs ''<js>'' rule"
    "BasePhase X J html rule stop (st0\<lparr>m_hasError_lrp := False, m_lastError_lrp := []\<rparr>)
       = (0, baseResult, st1)"
  shows "SplitRule rule = (rule, []) \<and> ParseRule X J html rule vals stop st0 = (0, baseResult, st1)"
proof -
  have s: "SplitRule rule = (rule, [])"
    using assms(2,3) by (simp add: SplitRule_def str_find_0 find_first_None [symmetric])
  show ?thesis
    using assms(1,4) by (simp add: s ParseRule_def TailPhase_def split: option.splits)
qed

theorem ParseRule_without_script_witness:
  "SplitRule ''//li'' = (''//li'', [])
   \<and> ParseRule two_nodes logging_vm ''doc'' ''//li'' [''old''] None (new_parser [])
       = (0, [''A'', ''B''], new_parser [])"
proof -
  have 1: "''//li'' \<noteq> []" "\<not> occurs ''@js:'' ''//li''" "\<not> occurs ''<js>'' ''//li''"
    by (simp_all add: occurs_def)
  have n: "(new_parser ([] :: string list))\<lparr>m_hasError_lrp := False, m_lastError_lrp := []\<rparr>
             = new_parser []"
    by (simp add: new_parser_def)
  have b: "BasePhase two_nodes logging_vm ''doc'' ''//li'' None
             ((new_parser [])\<lparr>m_hasError_lrp := False, m_lastError_lrp := []\<rparr>)
           = (0, [''A'', ''B''], new_parser [])"
    by (simp add: n BasePhase_def starts_with_def str_find_def ParseXPathRule_def two_nodes_def)
  show ?thesis
    using ParseRule_without_script [OF 1 b, of "[''old'']"] .
qed

text \<open>
  A base that starts with \<open>//\<close> goes to the XPath engine as it is, and one
  that starts with \<open>@XPath:\<close> goes there without these seven characters.
\<close>

theorem BasePhase_xpath_kinds:
  "(prefix ''//'' base \<longrightarrow>
      BasePhase X J html base stop st
        = (fst (X html base stop []), snd (X html base stop []), st))
   \<and> (prefix ''@XPath:'' base \<longrightarrow>
      BasePhase X J html base stop st
        = (fst (X html (drop 7 base) stop []), snd (X html (drop 7 base) stop []), st))"
  using BasePhase_slashes [of base X J html stop st] BasePhase_XPath_prefix [of base X J html stop st]
  by blast

theorem BasePhase_xpath_kinds_witness:
  "prefix ''@XPath:'' ''@XPath://div/text()''
   \<and> BasePhase two_nodes logging_vm ''doc'' ''@XPath://div/text()'' None (new_parser [])
       = (0, [''A'', ''B''], new_parser [])"
proof -
  have p: "prefix ''@XPath:'' ''@XPath://div/text()''" by simp
  show ?thesis
    using BasePhase_xpath_kinds [of "''@XPath://div/text()''" two_nodes logging_vm "''doc''" None
        "new_parser []"] p
    by (simp add: two_nodes_def)
qed

text \<open>
  When a stop is requested the tail loop ends before its first item and the call
  still succeeds, with the output vector as it was given.
\<close>

theorem TailPhase_stopped:
  assumes "jsRule \<noteq> []" "m_jsEngine st = Some e"
  shows "TailPhase J jsRule (Some True) baseResult vals st
           = (0, vals, st\<lparr>m_jsEngine := Some e, m_lastError_lrp := m_lastError_lrp st,
                             m_hasError_lrp := m_hasError_lrp st\<rparr>)"
  using assms by (cases baseResult) (simp_all add: TailPhase_def)

theorem TailPhase_stopped_witness:
  "fst (snd (TailPhase doubling_vm ''result+result'' (Some True) [''A'', ''B''] [] (new_parser [])))
     = []"
proof -
  have 1: "''result+result'' \<noteq> []" by simp
  have 2: "m_jsEngine (new_parser ([] :: string))
             = Some \<lparr>m_context = Some [], m_lastError = [], m_hasError = False\<rparr>"
    by (simp add: new_parser_def)
  show ?thesis
    using TailPhase_stopped [OF 1 2, of doubling_vm "[''A'', ''B'']" "[]"] by simp
qed

end
